theory Spec2Isabelle
  imports Complex_Main
begin

section \<open>JavaScript values used by the pipeline\<close>

text \<open>
  A property of a caught value (\<open>e.code\<close>, \<open>e.status\<close>): absent, a number or a string.
  The strict comparison \<open>e.code === 503\<close> holds only for the number 503.
\<close>

datatype jsprop = Undefined | Num int | Str string

text \<open>
  The values the remote calls reject with are objects; \<open>message\<close> may be absent.
\<close>

record js_error =
  code :: jsprop
  estatus :: jsprop
  message :: "string option"

datatype thrown = ThrownUndefined | Thrown js_error

text \<open>Truthiness of an optional string: \<open>undefined\<close> and the empty string are falsy.\<close>

definition truthy :: "string option \<Rightarrow> bool" where
  "truthy v = (case v of None \<Rightarrow> False | Some s \<Rightarrow> s \<noteq> [])"

text \<open>\<open>a || b\<close> with \<open>b\<close> a string, and with \<open>b\<close> an optional string.\<close>

definition js_or :: "string option \<Rightarrow> string \<Rightarrow> string" where
  "js_or a b = (case a of None \<Rightarrow> b | Some s \<Rightarrow> if s = [] then b else s)"

definition js_or_opt :: "string option \<Rightarrow> string option \<Rightarrow> string option" where
  "js_or_opt a b = (case a of None \<Rightarrow> b | Some s \<Rightarrow> if s = [] then b else Some s)"

section \<open>services/gemini.ts: withRetry\<close>

definition isRetryable :: "js_error \<Rightarrow> bool" where
  "isRetryable e \<longleftrightarrow>
     code e = Num 503 \<or> estatus e = Str ''UNAVAILABLE'' \<or>
     code e = Num 500 \<or> estatus e = Str ''INTERNAL'' \<or>
     code e = Num 429 \<or> estatus e = Str ''RESOURCE_EXHAUSTED''"

text \<open>\<open>(e.code === 429 ? 5000 : baseDelay) * Math.pow(2, i)\<close>, in milliseconds.\<close>

definition retry_delay :: "int \<Rightarrow> js_error \<Rightarrow> nat \<Rightarrow> int" where
  "retry_delay baseDelay e i = (if code e = Num 429 then 5000 else baseDelay) * 2 ^ i"

text \<open>
  What a run of \<open>withRetry\<close> does: the value it returns or throws, how many times it
  invoked \<open>fn\<close>, and the waits it made between attempts, in order.
\<close>

record 'a retry_run =
  outcome :: "thrown + 'a"
  calls :: nat
  delays :: "int list"

text \<open>
  The wrapped operation is given by the outcome of each of its invocations: \<open>fn n\<close> is
  what the invocation number \<open>n\<close> (from 0) returns (\<open>Inr\<close>) or rejects with (\<open>Inl\<close>).
  The loop state is the index \<open>i\<close>, the number \<open>n\<close> of invocations made so far, the
  waits made so far and \<open>lastError\<close>.
\<close>

function withRetry_loop ::
  "(nat \<Rightarrow> js_error + 'a) \<Rightarrow> nat \<Rightarrow> int \<Rightarrow> nat \<Rightarrow> nat \<Rightarrow> int list \<Rightarrow> thrown \<Rightarrow> 'a retry_run"
where
  "withRetry_loop fn maxRetries baseDelay i n waits lastError =
     (if i < maxRetries then
        (case fn n of
           Inr v \<Rightarrow> \<lparr>outcome = Inr v, calls = Suc n, delays = waits\<rparr>
         | Inl e \<Rightarrow>
             if isRetryable e \<and> int i < int maxRetries - 1
             then withRetry_loop fn maxRetries baseDelay (Suc i) (Suc n)
                    (waits @ [retry_delay baseDelay e i]) (Thrown e)
             else \<lparr>outcome = Inl (Thrown e), calls = Suc n, delays = waits\<rparr>)
      else \<lparr>outcome = Inl lastError, calls = n, delays = waits\<rparr>)"
  by pat_completeness auto
termination
  by (relation "measure (\<lambda>(fn, maxRetries, baseDelay, i, n, waits, lastError). maxRetries - i)") auto

definition withRetry :: "(nat \<Rightarrow> js_error + 'a) \<Rightarrow> nat \<Rightarrow> int \<Rightarrow> 'a retry_run" where
  "withRetry fn maxRetries baseDelay = withRetry_loop fn maxRetries baseDelay 0 0 [] ThrownUndefined"

text \<open>Example operations: two transient failures then a value; a permission failure;
  a resource-exhausted failure that carries the status but not the code 429.\<close>

definition unavailable :: js_error where
  "unavailable = \<lparr>code = Num 503, estatus = Str ''UNAVAILABLE'', message = None\<rparr>"

definition permission_denied :: js_error where
  "permission_denied = \<lparr>code = Num 403, estatus = Str ''PERMISSION_DENIED'', message = None\<rparr>"

definition quota_exceeded :: js_error where
  "quota_exceeded =
     \<lparr>code = Undefined, estatus = Str ''RESOURCE_EXHAUSTED'', message = Some ''quota exceeded''\<rparr>"

definition flaky :: "nat \<Rightarrow> js_error + nat" where
  "flaky n = (if n < 2 then Inl unavailable else Inr 7)"

definition denied :: "nat \<Rightarrow> js_error + nat" where
  "denied n = Inl permission_denied"

definition exhausted_once :: "nat \<Rightarrow> js_error + nat" where
  "exhausted_once n = (if n = 0 then Inl quota_exceeded else Inr 7)"

section \<open>services/gemini.ts: compressImage\<close>

text \<open>\<open>Math.round\<close>: the nearest integer, halves towards \<open>+\<infinity>\<close>.\<close>

definition js_round :: "real \<Rightarrow> int" where
  "js_round x = \<lfloor>x + 1 / 2\<rfloor>"

text \<open>
  The size given to the canvas by the \<open>onload\<close> handler for an image of \<open>w\<close> by \<open>h\<close>
  pixels, both positive (the quotients are finite). The arithmetic of the source is
  in double precision: \<open>fl\<close> is the rounding applied to the exact result of each
  division and multiplication.
\<close>

definition compress_dims :: "(real \<Rightarrow> real) \<Rightarrow> nat \<Rightarrow> nat \<Rightarrow> nat \<Rightarrow> int \<times> int" where
  "compress_dims fl maxWidth w h =
     (if w > maxWidth \<or> h > maxWidth then
        (let ratio = min (fl (real maxWidth / real w)) (fl (real maxWidth / real h))
         in (js_round (fl (real w * ratio)), js_round (fl (real h * ratio))))
      else (int w, int h))"

text \<open>The single scale factor of the source, \<open>ratio\<close>.\<close>

definition scale_factor :: "(real \<Rightarrow> real) \<Rightarrow> nat \<Rightarrow> nat \<Rightarrow> nat \<Rightarrow> real" where
  "scale_factor fl maxWidth w h = min (fl (real maxWidth / real w)) (fl (real maxWidth / real h))"

text \<open>The rounding \<open>fl\<close> returns \<open>x\<close> with a relative error of at most \<open>eps\<close>.\<close>

definition rounds_to :: "real \<Rightarrow> (real \<Rightarrow> real) \<Rightarrow> real \<Rightarrow> bool" where
  "rounds_to eps fl x \<longleftrightarrow> \<bar>fl x - x\<bar> \<le> eps * \<bar>x\<bar>"

text \<open>\<open>s.split(',')[1]\<close>: the text between the first and the second comma, \<open>undefined\<close>
  when \<open>s\<close> has no comma. \<open>hay.includes(needle)\<close>: \<open>needle\<close> occurs in \<open>hay\<close>.\<close>

definition split_second :: "string \<Rightarrow> string option" where
  "split_second s =
     (case dropWhile (\<lambda>c. c \<noteq> CHR '','') s of
        [] \<Rightarrow> None
      | c # rest \<Rightarrow> Some (takeWhile (\<lambda>c. c \<noteq> CHR '','') rest))"

fun starts_with :: "string \<Rightarrow> string \<Rightarrow> bool" where
  "starts_with hay [] = True"
| "starts_with [] (c # needle) = False"
| "starts_with (d # hay) (c # needle) = (d = c \<and> starts_with hay needle)"

fun includes_str :: "string \<Rightarrow> string \<Rightarrow> bool" where
  "includes_str [] needle = (needle = [])"
| "includes_str (d # hay) needle = (starts_with (d # hay) needle \<or> includes_str hay needle)"

text \<open>
  What the image element reports for the data URL: \<open>onerror\<close>, or \<open>onload\<close> with the
  decoded width and height.
\<close>

datatype image_load = LoadError | Loaded nat nat

text \<open>
  The value the promise resolves with. \<open>canvas_size\<close> is no field of the source: it
  records which picture \<open>data\<close> holds, the canvas of that size drawn and encoded as
  JPEG, or (\<open>None\<close>) the bytes of the source forwarded as they came.
\<close>

record compressed =
  data :: "string option"
  mimeType :: string
  canvas_size :: "(int \<times> int) option"

text \<open>The fallback of \<open>onerror\<close> and of a canvas without a 2d context.\<close>

definition forward_source :: "string \<Rightarrow> compressed" where
  "forward_source dataUrl =
     \<lparr>data = Some (js_or (split_second dataUrl) dataUrl),
      mimeType = (if includes_str dataUrl ''image/png'' then ''image/png'' else ''image/jpeg''),
      canvas_size = None\<rparr>"

text \<open>
  \<open>compressImage\<close>. \<open>toDataURL width height quality\<close> is the JPEG data URL of the canvas
  of that size with the image drawn on it, \<open>load\<close> what the image element reports and
  \<open>has_context\<close> whether \<open>getContext('2d')\<close> returns a context.
\<close>

definition compressImage ::
  "(real \<Rightarrow> real) \<Rightarrow> (int \<Rightarrow> int \<Rightarrow> real \<Rightarrow> string) \<Rightarrow> string \<Rightarrow> nat \<Rightarrow> real \<Rightarrow> image_load \<Rightarrow> bool
     \<Rightarrow> compressed"
where
  "compressImage fl toDataURL dataUrl maxWidth quality load has_context =
     (if dataUrl = [] then \<lparr>data = Some [], mimeType = [], canvas_size = None\<rparr>
      else
        (case load of
           LoadError \<Rightarrow> forward_source dataUrl
         | Loaded w h \<Rightarrow>
             (let (width, height) = compress_dims fl maxWidth w h in
              if has_context
              then \<lparr>data = split_second (toDataURL width height quality), mimeType = ''image/jpeg'',
                    canvas_size = Some (width, height)\<rparr>
              else forward_source dataUrl)))"

text \<open>The pixel dimensions of the picture returned for a source of \<open>w\<close> by \<open>h\<close> pixels.\<close>

definition output_size :: "nat \<Rightarrow> nat \<Rightarrow> compressed \<Rightarrow> int \<times> int" where
  "output_size w h out = (case canvas_size out of Some dims \<Rightarrow> dims | None \<Rightarrow> (int w, int h))"

text \<open>An example source and encoder.\<close>

definition sample_png :: string where
  "sample_png = ''data:image/png;base64,iVBORw0KGgo=''"

definition sample_toDataURL :: "int \<Rightarrow> int \<Rightarrow> real \<Rightarrow> string" where
  "sample_toDataURL width height quality = ''data:image/jpeg;base64,/9j/4AAQ''"

section \<open>services/gemini.ts: generatePromptsForContinuousSegments\<close>

text \<open>
  A parsed JSON value. An object is the list of its own properties, each key once.
  A property read yields \<open>None\<close> for \<open>undefined\<close>.
\<close>

datatype json =
  JNull | JBool bool | JNum real | JStr string | JArr "json list" | JObj "(string \<times> json) list"

text \<open>The decimal property key of an array index.\<close>

definition digit_char :: "nat \<Rightarrow> char" where
  "digit_char d = char_of (48 + d)"

fun decimal :: "nat \<Rightarrow> string" where
  "decimal n = (if n < 10 then [digit_char n] else decimal (n div 10) @ [digit_char (n mod 10)])"

text \<open>\<open>results[index]\<close> for \<open>results\<close> other than \<open>null\<close> (on \<open>null\<close> the read throws).\<close>

fun element_at :: "json \<Rightarrow> nat \<Rightarrow> json option" where
  "element_at (JArr xs) i = (if i < length xs then Some (xs ! i) else None)"
| "element_at (JObj kvs) i = map_of kvs (decimal i)"
| "element_at (JStr s) i = (if i < length s then Some (JStr [s ! i]) else None)"
| "element_at v i = None"

text \<open>\<open>x?.name\<close> for a name that no prototype defines.\<close>

fun optional_prop :: "json option \<Rightarrow> string \<Rightarrow> json option" where
  "optional_prop (Some (JObj kvs)) name = map_of kvs name"
| "optional_prop x name = None"

fun json_truthy :: "json option \<Rightarrow> bool" where
  "json_truthy None = False"
| "json_truthy (Some JNull) = False"
| "json_truthy (Some (JBool b)) = b"
| "json_truthy (Some (JNum x)) = (x \<noteq> 0)"
| "json_truthy (Some (JStr s)) = (s \<noteq> [])"
| "json_truthy (Some v) = True"

text \<open>The placeholder of a missing prompt and the message of the error thrown when the
  response cannot be used, as UTF-8 bytes.\<close>

definition failure_placeholder :: string where
  "failure_placeholder =
     [CHR 0xE7, CHR 0x94, CHR 0x9F, CHR 0xE6, CHR 0x88, CHR 0x90,
      CHR 0xE5, CHR 0xA4, CHR 0xB1, CHR 0xE8, CHR 0xB4, CHR 0xA5]"

definition prompts_failed_message :: string where
  "prompts_failed_message =
     [CHR 0xE7, CHR 0x94, CHR 0x9F, CHR 0xE6, CHR 0x88, CHR 0x90, CHR 0xE6, CHR 0x8F, CHR 0x90,
      CHR 0xE7, CHR 0xA4, CHR 0xBA, CHR 0xE8, CHR 0xAF, CHR 0x8D, CHR 0xE5, CHR 0xA4, CHR 0xB1,
      CHR 0xE8, CHR 0xB4, CHR 0xA5]"

definition prompts_failed :: js_error where
  "prompts_failed = \<lparr>code = Undefined, estatus = Undefined, message = Some prompts_failed_message\<rparr>"

text \<open>\<open>v || "..."\<close> with the placeholder.\<close>

definition or_placeholder :: "json option \<Rightarrow> json" where
  "or_placeholder v = (case v of None \<Rightarrow> JStr failure_placeholder
     | Some x \<Rightarrow> if json_truthy (Some x) then x else JStr failure_placeholder)"

text \<open>The prompts are typed as strings in the source, unchecked: they are whatever the
  response holds.\<close>

record GeneratedSceneResponse =
  script_segment :: string
  visual_prompt :: json
  image_prompt :: json

definition prompt_entry :: "json \<Rightarrow> string \<Rightarrow> nat \<Rightarrow> GeneratedSceneResponse" where
  "prompt_entry results seg index =
     \<lparr>script_segment = seg,
      visual_prompt = or_placeholder (optional_prop (element_at results index) ''visual_prompt''),
      image_prompt = or_placeholder (optional_prop (element_at results index) ''image_prompt'')\<rparr>"

text \<open>
  The part of the wrapped operation that follows the remote call. \<open>JSON_parse\<close> is the
  platform's parser (\<open>None\<close> when it throws) and \<open>text\<close> is \<open>response.text\<close>. A throw
  inside the \<open>try\<close>, from the parser or from reading an element of \<open>null\<close>, becomes the
  error \<open>prompts_failed\<close>; \<open>map\<close> over no segments reads nothing.
\<close>

definition prompts_of_response ::
  "(string \<Rightarrow> json option) \<Rightarrow> string list \<Rightarrow> string option \<Rightarrow> js_error + GeneratedSceneResponse list"
where
  "prompts_of_response JSON_parse segments text =
     (let jsonText = js_or text ''[]'' in
      case JSON_parse jsonText of
        None \<Rightarrow> Inl prompts_failed
      | Some results \<Rightarrow>
          if results = JNull \<and> segments \<noteq> [] then Inl prompts_failed
          else Inr (map (\<lambda>(seg, index). prompt_entry results seg index)
                      (zip segments [0..<length segments])))"

text \<open>The whole function: \<open>api n\<close> is what the \<open>n\<close>-th remote call returns
  (\<open>response.text\<close>) or rejects with; the retry bound and base delay are the defaults.\<close>

definition generatePromptsForContinuousSegments ::
  "(string \<Rightarrow> json option) \<Rightarrow> string list \<Rightarrow> (nat \<Rightarrow> js_error + string option)
     \<Rightarrow> GeneratedSceneResponse list retry_run"
where
  "generatePromptsForContinuousSegments JSON_parse segments api =
     withRetry (\<lambda>n. case api n of Inl e \<Rightarrow> Inl e
                      | Inr text \<Rightarrow> prompts_of_response JSON_parse segments text) 3 2000"

text \<open>Example responses: an array with one entry, and that text cut short. The parser
  is given on the response texts of the examples; no other text reaches it there.\<close>

definition one_entry_reply :: string where
  "one_entry_reply = ''[{\"visual_prompt\":\"pan\",\"image_prompt\":\"door\"}]''"

definition truncated_reply :: string where
  "truncated_reply = ''[{\"visual_prompt\":\"pa''"

definition JSON_parse_examples :: "string \<Rightarrow> json option" where
  "JSON_parse_examples t =
     (if t = ''[]'' then Some (JArr [])
      else if t = ''null'' then Some JNull
      else if t = one_entry_reply
        then Some (JArr [JObj [(''visual_prompt'', JStr ''pan''), (''image_prompt'', JStr ''door'')]])
      else None)"

definition two_segments :: "string list" where
  "two_segments = [''He opens the door.'', ''She looks up.'']"

definition replies_with :: "string \<Rightarrow> nat \<Rightarrow> js_error + string option" where
  "replies_with t n = Inr (Some t)"

section \<open>App: extractLastFrameFromVideo\<close>

datatype extract_error = ExtractTimeout | ContextError | VideoError | CaptureThrew string

datatype promise = Pending | Resolved string | Rejected extract_error

text \<open>
  The video element and the promise: \<open>src\<close> is the element's source attribute (the media
  handle; \<open>None\<close> once removed), \<open>load_calls\<close> counts \<open>video.load()\<close>, \<open>timer_armed\<close> says
  that the 10 s timer is pending, \<open>oncanplay_set\<close> that \<open>capture\<close> is installed as
  \<open>oncanplay\<close>.
\<close>

record extractor =
  src :: "string option"
  load_calls :: nat
  currentTime :: real
  timer_armed :: bool
  oncanplay_set :: bool
  settled :: promise

text \<open>What the canvas does inside \<open>capture\<close>: no 2d context, a data URL, or a throw.\<close>

datatype capture_result = NoContext | Drawn string | Threw string

datatype media_event =
  LoadedMetadata real | Seeked nat capture_result | CanPlay capture_result | MediaError | TimerFired

text \<open>\<open>resolve\<close> and \<open>reject\<close> act on a pending promise only.\<close>

definition settle :: "promise \<Rightarrow> extractor \<Rightarrow> extractor" where
  "settle p x = (if settled x = Pending then x\<lparr>settled := p\<rparr> else x)"

definition extract_start :: "string \<Rightarrow> extractor" where
  "extract_start videoUrl =
     \<lparr>src = Some videoUrl, load_calls = 0, currentTime = 0, timer_armed = True,
      oncanplay_set = False, settled = Pending\<rparr>"

definition capture :: "capture_result \<Rightarrow> extractor \<Rightarrow> extractor" where
  "capture r x =
     (let x1 = x\<lparr>timer_armed := False\<rparr>;
          x2 = (case r of
                  Drawn d \<Rightarrow> settle (Resolved d) x1
                | NoContext \<Rightarrow> settle (Rejected ContextError) x1
                | Threw m \<Rightarrow> settle (Rejected (CaptureThrew m)) x1)
      in x2\<lparr>src := None, load_calls := Suc (load_calls x2)\<rparr>)"

fun extract_step :: "media_event \<Rightarrow> extractor \<Rightarrow> extractor" where
  "extract_step (LoadedMetadata duration) x = x\<lparr>currentTime := max 0 (duration - 1 / 10)\<rparr>"
| "extract_step (Seeked readyState r) x =
     (if readyState \<ge> 2 then capture r x else x\<lparr>oncanplay_set := True\<rparr>)"
| "extract_step (CanPlay r) x = (if oncanplay_set x then capture r x else x)"
| "extract_step MediaError x = settle (Rejected VideoError) (x\<lparr>timer_armed := False\<rparr>)"
| "extract_step TimerFired x =
     (if timer_armed x then settle (Rejected ExtractTimeout) (x\<lparr>timer_armed := False\<rparr>) else x)"

definition extract_run :: "string \<Rightarrow> media_event list \<Rightarrow> extractor" where
  "extract_run videoUrl evs = foldl (\<lambda>x ev. extract_step ev x) (extract_start videoUrl) evs"

section \<open>types.ts and App: the scene list and its updates\<close>

datatype video_status = Idle | Generating_video | Completed | Error

datatype image_status = ImageIdle | ImageGenerating | ImageCompleted | ImageError

datatype aspect = Ratio_16_9 | Ratio_9_16

datatype AppMode = Storyboard | Single

record Scene =
  scene_id :: string
  scriptSegment :: string
  visualPrompt :: string
  imagePrompt :: "string option"
  videoUrl :: "string option"
  styleReferenceImage :: "string option"
  generatedImage :: "string option"
  status :: video_status
  errorMessage :: "string option"
  imageStatus :: image_status
  imageErrorMessage :: "string option"
  aspectRatio :: "aspect option"

text \<open>\<open>findIndex\<close>: the first position that satisfies the predicate, or \<open>-1\<close>.\<close>

fun findIndex :: "('a \<Rightarrow> bool) \<Rightarrow> 'a list \<Rightarrow> int" where
  "findIndex P [] = - 1"
| "findIndex P (x # xs) =
     (if P x then 0 else (let r = findIndex P xs in if r = - 1 then - 1 else r + 1))"

text \<open>Position \<open>k\<close> is where \<open>findIndex\<close> finds the scene with identifier \<open>i\<close>: the
  first scene of the list that has it.\<close>

definition first_at :: "string \<Rightarrow> Scene list \<Rightarrow> nat \<Rightarrow> bool" where
  "first_at i xs k \<longleftrightarrow>
     k < length xs \<and> scene_id (xs ! k) = i \<and> list_all (\<lambda>s. scene_id s \<noteq> i) (take k xs)"

text \<open>\<open>prev.map(s => s.id === id ? f(s) : s)\<close>.\<close>

definition update_scene :: "string \<Rightarrow> (Scene \<Rightarrow> Scene) \<Rightarrow> Scene list \<Rightarrow> Scene list" where
  "update_scene i f prev = map (\<lambda>s. if scene_id s = i then f s else s) prev"

text \<open>The scene built for each generated prompt triple, and the one of the add button.\<close>

definition idle_scene :: "string \<Rightarrow> string \<Rightarrow> string \<Rightarrow> string option \<Rightarrow> string option \<Rightarrow> Scene" where
  "idle_scene i seg vp ip ref =
     \<lparr>scene_id = i, scriptSegment = seg, visualPrompt = vp, imagePrompt = ip, videoUrl = None,
      styleReferenceImage = ref, generatedImage = None, status = Idle, errorMessage = None,
      imageStatus = ImageIdle, imageErrorMessage = None, aspectRatio = None\<rparr>"

definition new_scene_text :: string where
  "new_scene_text = [CHR 0xE6, CHR 0x96, CHR 0xB0, CHR 0xE5, CHR 0x9C, CHR 0xBA, CHR 0xE6, CHR 0x99, CHR 0xAF]"

definition new_prompt_text :: string where
  "new_prompt_text =
     [CHR 0xE6, CHR 0x96, CHR 0xB0, CHR 0xE7, CHR 0x94, CHR 0xBB, CHR 0xE9, CHR 0x9D, CHR 0xA2,
      CHR 0xE6, CHR 0x8F, CHR 0x8F, CHR 0xE8, CHR 0xBF, CHR 0xB0]"

definition unknown_error_text :: string where
  "unknown_error_text =
     [CHR 0xE6, CHR 0x9C, CHR 0xAA, CHR 0xE7, CHR 0x9F, CHR 0xA5, CHR 0xE9, CHR 0x94, CHR 0x99,
      CHR 0xE8, CHR 0xAF, CHR 0xAF]"

text \<open>
  Every state change is a functional update given to \<open>setScenes\<close>, applied to the list
  current when it runs. One constructor per update of the source; the identifiers
  come first, then the values the update closes over.
\<close>

datatype update =
    UpdatePrompt string string "string option"
  | FirstFrameStart string
  | FirstFrameDone string string
  | FirstFrameFailed string "string option"
  | VideoStart string "string option"
  | VideoDone string string aspect
  | ContinuityWrite string string
  | VideoFailed string "string option"
  | AddScene string

text \<open>The continuity update of \<open>handleGenerateVideo\<close>: the completed scene is looked up
  again in \<open>prev\<close>, and the frame goes to the scene after it if that one has no image.\<close>

definition continuity_write :: "string \<Rightarrow> string \<Rightarrow> Scene list \<Rightarrow> Scene list" where
  "continuity_write i lastFrame prev =
     (let idx = findIndex (\<lambda>s. scene_id s = i) prev in
      if idx = - 1 \<or> idx = int (length prev) - 1 then prev
      else (let updated = prev in
            if \<not> truthy (generatedImage (updated ! nat (idx + 1)))
            then updated[nat (idx + 1) :=
                   (updated ! nat (idx + 1))\<lparr>generatedImage := Some lastFrame, imageStatus := ImageCompleted\<rparr>]
            else updated))"

fun apply_update :: "update \<Rightarrow> Scene list \<Rightarrow> Scene list" where
  "apply_update (UpdatePrompt i newVideoPrompt newImagePrompt) prev =
     update_scene i (\<lambda>s. s\<lparr>visualPrompt := newVideoPrompt, imagePrompt := newImagePrompt\<rparr>) prev"
| "apply_update (FirstFrameStart i) prev =
     update_scene i (\<lambda>s. s\<lparr>imageStatus := ImageGenerating, imageErrorMessage := None\<rparr>) prev"
| "apply_update (FirstFrameDone i imageUrl) prev =
     update_scene i (\<lambda>s. s\<lparr>generatedImage := Some imageUrl, imageStatus := ImageCompleted\<rparr>) prev"
| "apply_update (FirstFrameFailed i msg) prev =
     update_scene i (\<lambda>s. s\<lparr>imageStatus := ImageError, imageErrorMessage := msg\<rparr>) prev"
| "apply_update (VideoStart i promptOverride) prev =
     update_scene i (\<lambda>s. s\<lparr>status := Generating_video, errorMessage := None,
                            visualPrompt := js_or promptOverride (visualPrompt s)\<rparr>) prev"
| "apply_update (VideoDone i url ar) prev =
     update_scene i (\<lambda>s. s\<lparr>status := Completed, videoUrl := Some url, aspectRatio := Some ar\<rparr>) prev"
| "apply_update (ContinuityWrite i lastFrame) prev = continuity_write i lastFrame prev"
| "apply_update (VideoFailed i msg) prev =
     update_scene i (\<lambda>s. s\<lparr>status := Error, errorMessage := Some (js_or msg unknown_error_text)\<rparr>) prev"
| "apply_update (AddScene i) prev = prev @ [idle_scene i new_scene_text new_prompt_text None None]"

definition run_updates :: "update list \<Rightarrow> Scene list \<Rightarrow> Scene list" where
  "run_updates us prev = foldl (\<lambda>cur u. apply_update u cur) prev us"

section \<open>App: the handlers\<close>

text \<open>
  A handler closes over \<open>scenes\<close>, the list of the render in which it was created, and
  issues its updates one after another as its awaits complete. It is modelled by the
  list of updates it issues, given that snapshot and the outcome of each awaited
  call (\<open>Inl\<close> a rejection).
\<close>

definition first_frame_result :: "string \<Rightarrow> js_error + string \<Rightarrow> update list" where
  "first_frame_result i imageResult =
     (case imageResult of
        Inl e \<Rightarrow> [FirstFrameFailed i (message e)]
      | Inr imageUrl \<Rightarrow> [FirstFrameDone i imageUrl])"

definition handleGenerateFirstFrame ::
  "Scene list \<Rightarrow> string \<Rightarrow> string option \<Rightarrow> js_error + string \<Rightarrow> js_error + string \<Rightarrow> update list"
where
  "handleGenerateFirstFrame scenes i promptOverride promptResult imageResult =
     FirstFrameStart i #
     (case find (\<lambda>s. scene_id s = i) scenes of
        None \<Rightarrow> []
      | Some scene \<Rightarrow>
          if \<not> truthy (js_or_opt promptOverride (imagePrompt scene)) then
            (case promptResult of
               Inl e \<Rightarrow> [FirstFrameFailed i (message e)]
             | Inr promptToUse \<Rightarrow>
                 UpdatePrompt i (visualPrompt scene) (Some promptToUse) # first_frame_result i imageResult)
          else first_frame_result i imageResult)"

definition continuity_step ::
  "AppMode \<Rightarrow> Scene list \<Rightarrow> string \<Rightarrow> js_error + string \<Rightarrow> update list"
where
  "continuity_step mode scenes i extractResult =
     (let sceneIndex = findIndex (\<lambda>s. scene_id s = i) scenes in
      if mode = Single \<and> sceneIndex \<noteq> - 1 \<and> sceneIndex < int (length scenes) - 1 then
        (let nextScene = scenes ! nat (sceneIndex + 1) in
         if \<not> truthy (generatedImage nextScene) then
           (case extractResult of
              Inl e \<Rightarrow> []
            | Inr lastFrame \<Rightarrow> [ContinuityWrite i lastFrame])
         else [])
      else [])"

definition handleGenerateVideo ::
  "AppMode \<Rightarrow> aspect \<Rightarrow> Scene list \<Rightarrow> string \<Rightarrow> string option \<Rightarrow> js_error + string \<Rightarrow> js_error + string
     \<Rightarrow> update list"
where
  "handleGenerateVideo mode ar scenes i promptOverride videoResult extractResult =
     VideoStart i promptOverride #
     (case find (\<lambda>s. scene_id s = i) scenes of
        None \<Rightarrow> []
      | Some scene \<Rightarrow>
          (case videoResult of
             Inl e \<Rightarrow> [VideoFailed i (message e)]
           | Inr url \<Rightarrow> VideoDone i url ar # continuity_step mode scenes i extractResult))"

text \<open>The user's operations, each run to its end on the list it was started on.\<close>

datatype operation =
    GenerateFirstFrame string "string option" "js_error + string" "js_error + string"
  | GenerateVideo string "string option" "js_error + string" "js_error + string"
  | ManualAdd string

fun operation_updates :: "AppMode \<Rightarrow> aspect \<Rightarrow> Scene list \<Rightarrow> operation \<Rightarrow> update list" where
  "operation_updates mode ar scenes (GenerateFirstFrame i ov promptResult imageResult) =
     handleGenerateFirstFrame scenes i ov promptResult imageResult"
| "operation_updates mode ar scenes (GenerateVideo i ov videoResult extractResult) =
     handleGenerateVideo mode ar scenes i ov videoResult extractResult"
| "operation_updates mode ar scenes (ManualAdd i) = [AddScene i]"

definition run_operation :: "AppMode \<Rightarrow> aspect \<Rightarrow> Scene list \<Rightarrow> operation \<Rightarrow> Scene list" where
  "run_operation mode ar scenes op = run_updates (operation_updates mode ar scenes op) scenes"

definition run_operations :: "AppMode \<Rightarrow> aspect \<Rightarrow> Scene list \<Rightarrow> operation list \<Rightarrow> Scene list" where
  "run_operations mode ar scenes ops = foldl (run_operation mode ar) scenes ops"








text \<open>Example shots of a continuous sequence, as created from script segments; a shot
  whose start frame the user supplied, one whose first frame was generated, and two
  rejections.\<close>

definition shot_a :: Scene where
  "shot_a = idle_scene ''a'' ''He opens the door.'' ''door opens'' (Some ''hand on a door'') None"

definition shot_b :: Scene where
  "shot_b = idle_scene ''b'' ''She looks up.'' ''she looks up'' (Some ''woman at a desk'') None"

definition shot_c :: Scene where
  "shot_c = idle_scene ''c'' ''They leave.'' ''they leave'' None None"

definition two_shots :: "Scene list" where
  "two_shots = [shot_a, shot_b]"

definition later_shots :: "Scene list" where
  "later_shots = [shot_c, shot_a, shot_b]"

definition uploaded_b :: Scene where
  "uploaded_b = shot_b\<lparr>generatedImage := Some ''data:upload''\<rparr>"

definition drawn_a :: Scene where
  "drawn_a = shot_a\<lparr>generatedImage := Some ''data:old'', imageStatus := ImageCompleted\<rparr>"

definition extraction_timeout :: js_error where
  "extraction_timeout = \<lparr>code = Undefined, estatus = Undefined, message = Some ''timeout''\<rparr>"

definition no_image_returned :: js_error where
  "no_image_returned = \<lparr>code = Undefined, estatus = Undefined, message = Some ''no image data''\<rparr>"

section \<open>Properties of withRetry\<close>

declare withRetry_loop.simps [simp del]

lemma withRetry_loop_succeeds:
  assumes "i + k < maxRetries"
    and "\<forall>j<k. \<exists>e. fn (n + j) = Inl e \<and> isRetryable e"
    and "fn (n + k) = Inr v"
  shows "outcome (withRetry_loop fn maxRetries baseDelay i n waits lastError) = Inr v \<and>
         calls (withRetry_loop fn maxRetries baseDelay i n waits lastError) = Suc (n + k)"
  using assms
proof (induction k arbitrary: i n waits lastError)
  case 0
  then show ?case
    by (subst (1 2) withRetry_loop.simps) simp
next
  case (Suc k)
  from Suc.prems(2) obtain e where e: "fn n = Inl e" "isRetryable e"
    by force
  have later: "\<forall>j<k. \<exists>e. fn (Suc n + j) = Inl e \<and> isRetryable e"
    using Suc.prems(2) by (metis Suc_less_eq add_Suc_shift)
  have more: "int i < int maxRetries - 1" "i < maxRetries"
    using Suc.prems(1) by simp_all
  have step: "withRetry_loop fn maxRetries baseDelay i n waits lastError =
      withRetry_loop fn maxRetries baseDelay (Suc i) (Suc n)
        (waits @ [retry_delay baseDelay e i]) (Thrown e)"
    by (subst withRetry_loop.simps) (simp add: e more)
  show ?case
    unfolding step using Suc.IH [of "Suc i" "Suc n"] Suc.prems(1,3) later by simp
qed

lemma withRetry_loop_fails_fast:
  assumes "i < maxRetries" and "fn n = Inl e" and "\<not> isRetryable e"
  shows "withRetry_loop fn maxRetries baseDelay i n waits lastError =
         \<lparr>outcome = Inl (Thrown e), calls = Suc n, delays = waits\<rparr>"
  by (subst withRetry_loop.simps) (simp add: assms)

lemma withRetry_loop_retries:
  assumes "i + k < maxRetries"
    and "\<forall>j<k. fn (n + j) = Inl (errs j) \<and> isRetryable (errs j)"
  shows "\<exists>lastError'. withRetry_loop fn maxRetries baseDelay i n waits lastError =
     withRetry_loop fn maxRetries baseDelay (i + k) (n + k)
       (waits @ map (\<lambda>j. retry_delay baseDelay (errs j) (i + j)) [0..<k]) lastError'"
  using assms
proof (induction k arbitrary: waits lastError)
  case 0
  then show ?case by auto
next
  case (Suc k)
  from Suc.prems have "i + k < maxRetries"
    and "\<forall>j<k. fn (n + j) = Inl (errs j) \<and> isRetryable (errs j)"
    by simp_all
  from Suc.IH [OF this] obtain l where
    l: "withRetry_loop fn maxRetries baseDelay i n waits lastError =
     withRetry_loop fn maxRetries baseDelay (i + k) (n + k)
       (waits @ map (\<lambda>j. retry_delay baseDelay (errs j) (i + j)) [0..<k]) l"
    by blast
  have e: "fn (n + k) = Inl (errs k)" "isRetryable (errs k)"
    using Suc.prems(2) by simp_all
  have more: "int i + int k < int maxRetries - 1" "i + k < maxRetries"
    using Suc.prems(1) by linarith+
  have "withRetry_loop fn maxRetries baseDelay (i + k) (n + k)
       (waits @ map (\<lambda>j. retry_delay baseDelay (errs j) (i + j)) [0..<k]) l =
     withRetry_loop fn maxRetries baseDelay (i + Suc k) (n + Suc k)
       (waits @ map (\<lambda>j. retry_delay baseDelay (errs j) (i + j)) [0..<Suc k]) (Thrown (errs k))"
    by (subst withRetry_loop.simps) (simp add: e more)
  with l show ?case by auto
qed

lemma withRetry_loop_returns:
  assumes "i < maxRetries" and "fn n = Inr v"
  shows "withRetry_loop fn maxRetries baseDelay i n waits lastError =
         \<lparr>outcome = Inr v, calls = Suc n, delays = waits\<rparr>"
  by (subst withRetry_loop.simps) (simp add: assms)

lemma withRetry_delays:
  assumes "k < maxRetries"
    and "\<forall>j<k. fn j = Inl (errs j) \<and> isRetryable (errs j)"
    and "fn k = Inr v"
  shows "withRetry fn maxRetries baseDelay =
     \<lparr>outcome = Inr v, calls = Suc k,
      delays = map (\<lambda>j. (if code (errs j) = Num 429 then 5000 else baseDelay) * 2 ^ j) [0..<k]\<rparr>"
proof -
  from withRetry_loop_retries [of 0 k maxRetries fn 0 errs baseDelay "[]" ThrownUndefined] assms
  obtain l where "withRetry fn maxRetries baseDelay =
      withRetry_loop fn maxRetries baseDelay k k
        (map (\<lambda>j. retry_delay baseDelay (errs j) j) [0..<k]) l"
    by (auto simp: withRetry_def)
  then show ?thesis
    using withRetry_loop_returns [of k maxRetries fn k v baseDelay] assms(1,3)
    by (simp add: retry_delay_def)
qed

lemma withRetry_stops:
  assumes "k < maxRetries"
    and "\<forall>j<k. fn j = Inl (errs j) \<and> isRetryable (errs j)"
    and "fn k = Inl e" and "\<not> isRetryable e"
  shows "outcome (withRetry fn maxRetries baseDelay) = Inl (Thrown e) \<and>
     calls (withRetry fn maxRetries baseDelay) = Suc k"
proof -
  from withRetry_loop_retries [of 0 k maxRetries fn 0 errs baseDelay "[]" ThrownUndefined] assms
  obtain l where "withRetry fn maxRetries baseDelay =
      withRetry_loop fn maxRetries baseDelay k k
        (map (\<lambda>j. retry_delay baseDelay (errs j) j) [0..<k]) l"
    by (auto simp: withRetry_def)
  then show ?thesis
    using withRetry_loop_fails_fast [of k maxRetries fn k e baseDelay] assms(1,3,4) by simp
qed

text \<open>
  C3. With bound \<open>maxRetries\<close>: an operation that fails with a retryable error exactly
  \<open>k < maxRetries\<close> times and then succeeds makes \<open>withRetry\<close> return the success value
  after exactly \<open>k + 1\<close> invocations; an operation that always fails with a
  non-retryable error is invoked exactly once (the bound allowing one attempt) and
  that error is thrown unchanged.
\<close>

theorem withRetry_counts:
  "(k < maxRetries \<and> (\<forall>j<k. \<exists>e. fn j = Inl e \<and> isRetryable e) \<and> fn k = Inr v \<longrightarrow>
      outcome (withRetry fn maxRetries baseDelay) = Inr v \<and>
      calls (withRetry fn maxRetries baseDelay) = k + 1) \<and>
   (0 < maxRetries \<and> (\<forall>j. \<exists>e. fn j = Inl e \<and> \<not> isRetryable e) \<and> fn 0 = Inl e0 \<longrightarrow>
      outcome (withRetry fn maxRetries baseDelay) = Inl (Thrown e0) \<and>
      calls (withRetry fn maxRetries baseDelay) = 1)"
proof (intro conjI impI)
  assume h: "k < maxRetries \<and> (\<forall>j<k. \<exists>e. fn j = Inl e \<and> isRetryable e) \<and> fn k = Inr v"
  then have "outcome (withRetry_loop fn maxRetries baseDelay 0 0 [] ThrownUndefined) = Inr v \<and>
      calls (withRetry_loop fn maxRetries baseDelay 0 0 [] ThrownUndefined) = Suc (0 + k)"
    by (intro withRetry_loop_succeeds) simp_all
  then show "outcome (withRetry fn maxRetries baseDelay) = Inr v"
    and "calls (withRetry fn maxRetries baseDelay) = k + 1"
    by (simp_all add: withRetry_def)
next
  assume h: "0 < maxRetries \<and> (\<forall>j. \<exists>e. fn j = Inl e \<and> \<not> isRetryable e) \<and> fn 0 = Inl e0"
  then have "\<not> isRetryable e0" by (metis Inl_inject)
  with h have "withRetry fn maxRetries baseDelay =
      \<lparr>outcome = Inl (Thrown e0), calls = Suc 0, delays = []\<rparr>"
    unfolding withRetry_def by (intro withRetry_loop_fails_fast) simp_all
  then show "outcome (withRetry fn maxRetries baseDelay) = Inl (Thrown e0)"
    and "calls (withRetry fn maxRetries baseDelay) = 1"
    by simp_all
qed

text \<open>The default bound on two unavailable failures followed by a value, and on a
  permission failure.\<close>

theorem withRetry_counts_witness:
  "outcome (withRetry flaky 3 2000) = Inr 7 \<and> calls (withRetry flaky 3 2000) = 3 \<and>
   outcome (withRetry denied 3 2000) = Inl (Thrown permission_denied) \<and>
   calls (withRetry denied 3 2000) = 1"
proof -
  have a: "(2::nat) < 3 \<and> (\<forall>j<2. \<exists>e. flaky j = Inl e \<and> isRetryable e) \<and> flaky 2 = Inr 7"
    by (simp add: flaky_def isRetryable_def unavailable_def)
  have b: "(0::nat) < 3 \<and> (\<forall>j. \<exists>e. denied j = Inl e \<and> \<not> isRetryable e) \<and>
      denied 0 = Inl permission_denied"
    by (simp add: denied_def isRetryable_def permission_denied_def)
  from a have "outcome (withRetry flaky 3 2000) = Inr 7 \<and> calls (withRetry flaky 3 2000) = 2 + 1"
    using withRetry_counts [of 2 3 flaky 7 2000] by blast
  moreover from b have "outcome (withRetry denied 3 2000) = Inl (Thrown permission_denied) \<and>
     calls (withRetry denied 3 2000) = 1"
    using withRetry_counts [of _ 3 denied _ 2000] by blast
  ultimately show ?thesis by simp
qed

text \<open>
  C4. The wait before the next attempt is \<open>5000 * 2 ^ i\<close> only for an error whose
  \<open>code\<close> is the number 429. An error that \<open>isRetryable\<close> classes as resource
  exhaustion by its status alone is retried after the base delay: with the
  defaults, 2000 ms before the second attempt, not 5000 ms or more.
\<close>

theorem withRetry_exhausted_status_waits_base_delay:
  "isRetryable quota_exceeded \<and>
   estatus quota_exceeded = Str ''RESOURCE_EXHAUSTED'' \<and>
   outcome (withRetry exhausted_once 3 2000) = Inr 7 \<and>
   calls (withRetry exhausted_once 3 2000) = 2 \<and>
   delays (withRetry exhausted_once 3 2000) = [2000]"
  by (simp add: withRetry_def withRetry_loop.simps exhausted_once_def quota_exceeded_def
      isRetryable_def retry_delay_def)

section \<open>Properties of compressImage\<close>

lemma js_round_near: "\<bar>real_of_int (js_round y) - y\<bar> \<le> 1 / 2"
  unfolding js_round_def by linarith

lemma js_round_le: "y < real_of_int m + 1 / 2 \<Longrightarrow> js_round y \<le> m"
  unfolding js_round_def by linarith

lemma js_round_nonneg: "0 \<le> y \<Longrightarrow> 0 \<le> js_round y"
  unfolding js_round_def by linarith

lemma add_scaled: "x + eps * x = x * (1 + eps)" for x eps :: real
  by (simp add: distrib_left mult.commute)

lemma small_eps:
  assumes "0 \<le> eps" and "3 * eps * (real M + 1) < 1 / 2"
  shows "eps \<le> 1" and "real M * ((1 + eps) * (1 + eps)) < real M + 1 / 2"
proof -
  have "3 * eps * 1 \<le> 3 * eps * (real M + 1)"
    using assms(1) by (intro mult_left_mono) simp_all
  with assms(2) show e1: "eps \<le> 1" by simp
  have "eps * eps \<le> eps * 1"
    using assms(1) e1 by (intro mult_left_mono) simp_all
  then have "(1 + eps) * (1 + eps) \<le> 1 + 3 * eps"
    by (simp add: algebra_simps)
  then have "real M * ((1 + eps) * (1 + eps)) \<le> real M * (1 + 3 * eps)"
    by (intro mult_left_mono) simp_all
  also have "\<dots> = real M + 3 * eps * real M"
    by (simp add: algebra_simps)
  also have "\<dots> \<le> real M + 3 * eps * (real M + 1)"
    using assms(1) by (simp add: algebra_simps)
  finally show "real M * ((1 + eps) * (1 + eps)) < real M + 1 / 2"
    using assms(2) by simp
qed

lemma quotient_rounded:
  assumes "0 < d" and "0 \<le> eps" and "eps \<le> 1" and "rounds_to eps fl (real M / real d)"
  shows "0 \<le> fl (real M / real d)" and "real d * fl (real M / real d) \<le> real M * (1 + eps)"
proof -
  let ?q = "real M / real d"
  have q0: "0 \<le> ?q" by simp
  from assms(4) have b: "\<bar>fl ?q - ?q\<bar> \<le> eps * ?q"
    unfolding rounds_to_def using q0 by simp
  have "eps * ?q \<le> 1 * ?q"
    using assms(3) q0 by (intro mult_right_mono) simp_all
  with b show "0 \<le> fl ?q" by linarith
  from b have "fl ?q \<le> ?q + eps * ?q" by linarith
  also have "\<dots> = ?q * (1 + eps)" by (simp only: distrib_left mult_1_right)
      (simp only: mult.commute)
  finally have "fl ?q \<le> ?q * (1 + eps)" .
  then have "real d * fl ?q \<le> real d * (?q * (1 + eps))"
    by (intro mult_left_mono) simp_all
  also have "\<dots> = real M * (1 + eps)"
    using assms(1) by simp
  finally show "real d * fl ?q \<le> real M * (1 + eps)" .
qed

lemma scaled_side:
  assumes d: "0 < d" and eps: "0 \<le> eps" and small: "3 * eps * (real M + 1) < 1 / 2"
    and r0: "0 \<le> r" and r1: "r \<le> fl (real M / real d)"
    and q: "rounds_to eps fl (real M / real d)" and p: "rounds_to eps fl (real d * r)"
  shows "0 \<le> js_round (fl (real d * r)) \<and> js_round (fl (real d * r)) \<le> int M \<and>
    \<bar>real_of_int (js_round (fl (real d * r))) - real d * r\<bar> \<le> 1 / 2 + eps * (real d * r)"
proof -
  let ?y = "fl (real d * r)"
  note e = small_eps [OF eps small]
  have x0: "0 \<le> real d * r" using r0 by simp
  have "real d * r \<le> real d * fl (real M / real d)"
    using r1 by (intro mult_left_mono) simp_all
  also have "\<dots> \<le> real M * (1 + eps)"
    by (rule quotient_rounded(2) [OF d eps e(1) q])
  finally have x1: "real d * r \<le> real M * (1 + eps)" .
  from p have b: "\<bar>?y - real d * r\<bar> \<le> eps * (real d * r)"
    unfolding rounds_to_def using x0 by simp
  have "eps * (real d * r) \<le> 1 * (real d * r)"
    using e(1) x0 by (intro mult_right_mono) simp_all
  with b have y0: "0 \<le> ?y" by linarith
  from b have "?y \<le> real d * r + eps * (real d * r)" by linarith
  also have "\<dots> = (real d * r) * (1 + eps)"
    by (rule add_scaled)
  also have "\<dots> \<le> (real M * (1 + eps)) * (1 + eps)"
    using x1 eps by (intro mult_right_mono) simp_all
  also have "\<dots> < real M + 1 / 2"
    using e(2) by (simp add: mult.assoc)
  finally have y1: "?y < real_of_int (int M) + 1 / 2" by simp
  have "\<bar>real_of_int (js_round ?y) - real d * r\<bar> \<le>
      \<bar>real_of_int (js_round ?y) - ?y\<bar> + \<bar>?y - real d * r\<bar>"
    by linarith
  also have "\<dots> \<le> 1 / 2 + eps * (real d * r)"
    using js_round_near [of ?y] b by linarith
  finally show ?thesis
    using js_round_nonneg [OF y0] js_round_le [OF y1] by simp
qed

text \<open>The size of the canvas: bounded by \<open>maxWidth\<close> and scaled by the one factor when
  the source exceeds \<open>maxWidth\<close>, the size of the source otherwise.\<close>

lemma compress_dims_bounded:
  assumes "0 < w" and "0 < h" and "0 \<le> eps" and "3 * eps * (real maxWidth + 1) < 1 / 2"
    and "rounds_to eps fl (real maxWidth / real w)"
    and "rounds_to eps fl (real maxWidth / real h)"
    and "rounds_to eps fl (real w * scale_factor fl maxWidth w h)"
    and "rounds_to eps fl (real h * scale_factor fl maxWidth w h)"
  shows "(w > maxWidth \<or> h > maxWidth \<longrightarrow>
           (let r = scale_factor fl maxWidth w h; (w', h') = compress_dims fl maxWidth w h
            in 0 \<le> w' \<and> 0 \<le> h' \<and> max w' h' \<le> int maxWidth \<and>
               \<bar>real_of_int w' - real w * r\<bar> \<le> 1 / 2 + eps * (real w * r) \<and>
               \<bar>real_of_int h' - real h * r\<bar> \<le> 1 / 2 + eps * (real h * r))) \<and>
         (w \<le> maxWidth \<and> h \<le> maxWidth \<longrightarrow> compress_dims fl maxWidth w h = (int w, int h))"
proof (intro conjI impI)
  assume big: "w > maxWidth \<or> h > maxWidth"
  let ?r = "scale_factor fl maxWidth w h"
  note e = small_eps [OF assms(3,4)]
  have r0: "0 \<le> ?r"
    unfolding scale_factor_def
    using quotient_rounded(1) [OF assms(1,3) e(1) assms(5)]
      quotient_rounded(1) [OF assms(2,3) e(1) assms(6)] by simp
  have rw: "?r \<le> fl (real maxWidth / real w)" and rh: "?r \<le> fl (real maxWidth / real h)"
    unfolding scale_factor_def by simp_all
  have dims: "compress_dims fl maxWidth w h =
      (js_round (fl (real w * ?r)), js_round (fl (real h * ?r)))"
    using big by (simp add: compress_dims_def scale_factor_def Let_def)
  show "let r = ?r; (w', h') = compress_dims fl maxWidth w h
     in 0 \<le> w' \<and> 0 \<le> h' \<and> max w' h' \<le> int maxWidth \<and>
        \<bar>real_of_int w' - real w * r\<bar> \<le> 1 / 2 + eps * (real w * r) \<and>
        \<bar>real_of_int h' - real h * r\<bar> \<le> 1 / 2 + eps * (real h * r)"
    unfolding dims Let_def prod.case
    using scaled_side [OF assms(1,3,4) r0 rw assms(5,7)]
      scaled_side [OF assms(2,3,4) r0 rh assms(6,8)] by simp
next
  assume "w \<le> maxWidth \<and> h \<le> maxWidth"
  then show "compress_dims fl maxWidth w h = (int w, int h)"
    by (simp add: compress_dims_def)
qed

lemma sample_split: "split_second sample_png = Some ''iVBORw0KGgo=''" "includes_str sample_png ''image/png''"
  by (simp_all add: split_second_def sample_png_def)

text \<open>
  C6, as stated, fails. A decoded image of 3000 by 1001 pixels, given with the default
  maximum 1024 when the canvas has no 2d context, is returned as it came: the data of
  the source, 3000 by 1001 pixels.
\<close>

theorem compressImage_without_context_counterexample:
  "compressImage (\<lambda>x. x) sample_toDataURL sample_png 1024 (4 / 5) (Loaded 3000 1001) False =
     \<lparr>data = Some ''iVBORw0KGgo='', mimeType = ''image/png'', canvas_size = None\<rparr> \<and>
   output_size 3000 1001
     (compressImage (\<lambda>x. x) sample_toDataURL sample_png 1024 (4 / 5) (Loaded 3000 1001) False) =
     (3000, 1001) \<and>
   \<not> max (3000::int) 1001 \<le> 1024"
proof -
  have ne: "sample_png \<noteq> []" by (simp add: sample_png_def)
  have c: "compressImage (\<lambda>x. x) sample_toDataURL sample_png 1024 (4 / 5) (Loaded 3000 1001) False =
     \<lparr>data = Some ''iVBORw0KGgo='', mimeType = ''image/png'', canvas_size = None\<rparr>"
    by (simp add: compressImage_def ne forward_source_def sample_split js_or_def case_prod_unfold Let_def)
  show ?thesis unfolding c by (simp add: output_size_def)
qed

text \<open>
  C6, amended. For a decoded image of positive width and height and maximum dimension
  \<open>maxWidth\<close>, when the canvas has a 2d context the function returns the JPEG encoding
  of the canvas: if either source dimension exceeds \<open>maxWidth\<close>, both of its
  dimensions are at most \<open>maxWidth\<close> and each is the source dimension times the one
  factor \<open>min (maxWidth / w) (maxWidth / h)\<close> up to the rounding to a whole pixel
  (half a pixel, plus the relative error \<open>eps\<close> of the double-precision operations);
  if both are within \<open>maxWidth\<close>, it has the source dimensions. When the canvas has
  no 2d context the function forwards the source, at its own dimensions.
\<close>

theorem compressImage_output_size:
  assumes "0 < w" and "0 < h" and "0 \<le> eps" and "3 * eps * (real maxWidth + 1) < 1 / 2"
    and "rounds_to eps fl (real maxWidth / real w)"
    and "rounds_to eps fl (real maxWidth / real h)"
    and "rounds_to eps fl (real w * scale_factor fl maxWidth w h)"
    and "rounds_to eps fl (real h * scale_factor fl maxWidth w h)"
    and "dataUrl \<noteq> []"
  shows "(w > maxWidth \<or> h > maxWidth \<longrightarrow>
           (let r = scale_factor fl maxWidth w h;
                (w', h') = output_size w h
                   (compressImage fl toDataURL dataUrl maxWidth quality (Loaded w h) True)
            in 0 \<le> w' \<and> 0 \<le> h' \<and> max w' h' \<le> int maxWidth \<and>
               \<bar>real_of_int w' - real w * r\<bar> \<le> 1 / 2 + eps * (real w * r) \<and>
               \<bar>real_of_int h' - real h * r\<bar> \<le> 1 / 2 + eps * (real h * r))) \<and>
         (w \<le> maxWidth \<and> h \<le> maxWidth \<longrightarrow>
            output_size w h (compressImage fl toDataURL dataUrl maxWidth quality (Loaded w h) True) =
              (int w, int h)) \<and>
         (let (w', h') = output_size w h
                 (compressImage fl toDataURL dataUrl maxWidth quality (Loaded w h) True)
          in compressImage fl toDataURL dataUrl maxWidth quality (Loaded w h) True =
               \<lparr>data = split_second (toDataURL w' h' quality), mimeType = ''image/jpeg'',
                canvas_size = Some (w', h')\<rparr>) \<and>
         compressImage fl toDataURL dataUrl maxWidth quality (Loaded w h) False = forward_source dataUrl \<and>
         output_size w h (compressImage fl toDataURL dataUrl maxWidth quality (Loaded w h) False) =
           (int w, int h)"
proof -
  have out: "output_size w h (compressImage fl toDataURL dataUrl maxWidth quality (Loaded w h) True) =
      compress_dims fl maxWidth w h"
    using assms(9) by (simp add: compressImage_def output_size_def case_prod_unfold Let_def)
  have ctx: "compressImage fl toDataURL dataUrl maxWidth quality (Loaded w h) True =
      \<lparr>data = split_second (toDataURL (fst (compress_dims fl maxWidth w h))
          (snd (compress_dims fl maxWidth w h)) quality), mimeType = ''image/jpeg'',
       canvas_size = Some (compress_dims fl maxWidth w h)\<rparr>"
    using assms(9) by (simp add: compressImage_def case_prod_unfold Let_def)
  have none: "compressImage fl toDataURL dataUrl maxWidth quality (Loaded w h) False = forward_source dataUrl"
    using assms(9) by (simp add: compressImage_def case_prod_unfold Let_def)
  have fwd: "output_size w h (forward_source dataUrl) = (int w, int h)"
    by (simp add: output_size_def forward_source_def)
  note dims = compress_dims_bounded [OF assms(1-8)]
  show ?thesis
    unfolding out none fwd using dims ctx by (simp add: case_prod_unfold)
qed

text \<open>With exact arithmetic: 3000 by 1001 becomes 1024 by 342, 800 by 600 stays.\<close>

theorem compressImage_output_size_witness:
  "output_size 3000 1001
     (compressImage (\<lambda>x. x) sample_toDataURL sample_png 1024 (4 / 5) (Loaded 3000 1001) True) = (1024, 342) \<and>
   \<bar>1024 - 3000 * scale_factor (\<lambda>x. x) 1024 3000 1001\<bar> \<le> 1 / 2 \<and>
   \<bar>342 - 1001 * scale_factor (\<lambda>x. x) 1024 3000 1001\<bar> \<le> 1 / 2 \<and>
   output_size 800 600
     (compressImage (\<lambda>x. x) sample_toDataURL sample_png 1024 (4 / 5) (Loaded 800 600) True) = (800, 600) \<and>
   compressImage (\<lambda>x. x) sample_toDataURL sample_png 1024 (4 / 5) (Loaded 3000 1001) True =
     \<lparr>data = Some ''/9j/4AAQ'', mimeType = ''image/jpeg'', canvas_size = Some (1024, 342)\<rparr> \<and>
   compressImage (\<lambda>x. x) sample_toDataURL sample_png 1024 (4 / 5) (Loaded 3000 1001) False =
     forward_source sample_png"
proof -
  have ne: "sample_png \<noteq> []" by (simp add: sample_png_def)
  have ex: "compress_dims (\<lambda>x. x) 1024 3000 1001 = (1024, 342)"
    by (simp add: compress_dims_def js_round_def Let_def)
  have o: "output_size 3000 1001
     (compressImage (\<lambda>x. x) sample_toDataURL sample_png 1024 (4 / 5) (Loaded 3000 1001) True) = (1024, 342)"
    by (simp add: compressImage_def output_size_def ne ex Let_def)
  have enc: "split_second (sample_toDataURL a b q) = Some ''/9j/4AAQ''" for a b q
    by (simp add: split_second_def sample_toDataURL_def)
  have a: "(3000::nat) > 1024 \<or> (1001::nat) > 1024" and b: "(800::nat) \<le> 1024 \<and> (600::nat) \<le> 1024"
    by simp_all
  have r: "rounds_to 0 (\<lambda>x. x) y" for y
    by (simp add: rounds_to_def)
  have s: "3 * (0::real) * (real (1024::nat) + 1) < 1 / 2" by simp
  note t = compressImage_output_size [of _ _ 0 1024 "\<lambda>x. x" sample_png sample_toDataURL "4 / 5",
      OF _ _ order_refl s r r r r ne]
  have 1: "\<bar>1024 - 3000 * scale_factor (\<lambda>x. x) 1024 3000 1001\<bar> \<le> 1 / 2 \<and>
      \<bar>342 - 1001 * scale_factor (\<lambda>x. x) 1024 3000 1001\<bar> \<le> 1 / 2"
    using t [of 3000 1001, THEN conjunct1, rule_format, OF _ _ a] unfolding o
    by (simp add: Let_def)
  have 2: "output_size 800 600
     (compressImage (\<lambda>x. x) sample_toDataURL sample_png 1024 (4 / 5) (Loaded 800 600) True) = (800, 600)"
    using t [of 800 600, THEN conjunct2, THEN conjunct1, rule_format, OF _ _ b] by simp
  have 3: "compressImage (\<lambda>x. x) sample_toDataURL sample_png 1024 (4 / 5) (Loaded 3000 1001) True =
     \<lparr>data = Some ''/9j/4AAQ'', mimeType = ''image/jpeg'', canvas_size = Some (1024, 342)\<rparr>"
    using t [of 3000 1001, THEN conjunct2, THEN conjunct2, THEN conjunct1] unfolding o
    by (simp add: enc)
  have 4: "compressImage (\<lambda>x. x) sample_toDataURL sample_png 1024 (4 / 5) (Loaded 3000 1001) False =
     forward_source sample_png"
    using t [of 3000 1001, THEN conjunct2, THEN conjunct2, THEN conjunct2, THEN conjunct1] by simp
  from o 1 2 3 4 show ?thesis by (simp only: simp_thms)
qed

section \<open>Properties of generatePromptsForContinuousSegments\<close>

lemma prompts_failed_not_retryable: "\<not> isRetryable prompts_failed"
  by (simp add: isRetryable_def prompts_failed_def)

lemma failure_placeholder_truthy: "failure_placeholder \<noteq> []"
  by (simp add: failure_placeholder_def)

lemma or_placeholder_truthy: "json_truthy (Some (or_placeholder v))"
  by (cases v) (simp_all add: or_placeholder_def failure_placeholder_truthy)

lemma or_placeholder_missing: "\<not> json_truthy v \<Longrightarrow> or_placeholder v = JStr failure_placeholder"
  by (cases v) (simp_all add: or_placeholder_def)

lemma prompt_entries_length:
  "length (map (\<lambda>(seg, index). prompt_entry results seg index) (zip segments [0..<length segments])) =
     length segments"
  by simp

lemma prompt_entries_segments:
  "map script_segment (map (\<lambda>(seg, index). prompt_entry results seg index)
       (zip segments [0..<length segments])) = segments"
proof -
  have "map script_segment (map (\<lambda>(seg, index). prompt_entry results seg index)
       (zip segments [0..<length segments])) = map fst (zip segments [0..<length segments])"
    by (simp add: prompt_entry_def case_prod_unfold comp_def)
  then show ?thesis by simp
qed

lemma prompt_entries_nth:
  "n < length segments \<Longrightarrow>
     map (\<lambda>(seg, index). prompt_entry results seg index) (zip segments [0..<length segments]) ! n =
       prompt_entry results (segments ! n) n"
  by simp

lemma prompts_of_response_parsed:
  assumes "JSON_parse (js_or text ''[]'') = Some results" and "results = JNull \<longrightarrow> segments = []"
  shows "prompts_of_response JSON_parse segments text =
     Inr (map (\<lambda>(seg, index). prompt_entry results seg index) (zip segments [0..<length segments]))"
  using assms by (auto simp: prompts_of_response_def Let_def)

lemma prompts_of_response_unusable:
  assumes "JSON_parse (js_or text ''[]'') = None \<or>
     JSON_parse (js_or text ''[]'') = Some JNull \<and> segments \<noteq> []"
  shows "prompts_of_response JSON_parse segments text = Inl prompts_failed"
  using assms by (auto simp: prompts_of_response_def Let_def)

lemma short_array_entry: "length xs \<le> n \<Longrightarrow> optional_prop (element_at (JArr xs) n) name = None"
  by simp

text \<open>
  C5, amended. When the response text (after up to two retried transient failures of
  the call) parses as JSON, to a value other than \<open>null\<close> unless there are no
  segments, the result has exactly one entry per input segment, in order, with the
  segment as \<open>script_segment\<close>; each prompt is the value found at that position of the
  response or, when that value is missing or falsy (as for every position beyond a
  short array), the failure placeholder, which is not empty. When the text does not
  parse, or parses to \<open>null\<close> with segments to map, the call throws the
  prompt-generation error after that invocation instead.
\<close>

theorem prompts_per_segment_when_parsed:
  "(k < 3 \<and> (\<forall>j<k. api j = Inl (errs j) \<and> isRetryable (errs j)) \<and> api k = Inr text \<and>
    JSON_parse (js_or text ''[]'') = Some results \<and> (results = JNull \<longrightarrow> segments = []) \<longrightarrow>
      (\<exists>rs. outcome (generatePromptsForContinuousSegments JSON_parse segments api) = Inr rs \<and>
         length rs = length segments \<and> map script_segment rs = segments \<and>
         (\<forall>n<length segments.
            visual_prompt (rs ! n) =
              or_placeholder (optional_prop (element_at results n) ''visual_prompt'') \<and>
            image_prompt (rs ! n) =
              or_placeholder (optional_prop (element_at results n) ''image_prompt'') \<and>
            json_truthy (Some (visual_prompt (rs ! n))) \<and>
            json_truthy (Some (image_prompt (rs ! n)))))) \<and>
   (\<not> json_truthy v \<longrightarrow> or_placeholder v = JStr failure_placeholder) \<and>
   (length xs \<le> n \<longrightarrow> optional_prop (element_at (JArr xs) n) name = None) \<and>
   failure_placeholder \<noteq> [] \<and>
   (k < 3 \<and> (\<forall>j<k. api j = Inl (errs j) \<and> isRetryable (errs j)) \<and> api k = Inr text \<and>
    (JSON_parse (js_or text ''[]'') = None \<or>
     JSON_parse (js_or text ''[]'') = Some JNull \<and> segments \<noteq> []) \<longrightarrow>
      outcome (generatePromptsForContinuousSegments JSON_parse segments api) = Inl (Thrown prompts_failed) \<and>
      calls (generatePromptsForContinuousSegments JSON_parse segments api) = Suc k)"
proof (intro conjI impI)
  let ?fn = "\<lambda>n. case api n of Inl e \<Rightarrow> Inl e
     | Inr text \<Rightarrow> prompts_of_response JSON_parse segments text"
  let ?rs = "map (\<lambda>(seg, index). prompt_entry results seg index) (zip segments [0..<length segments])"
  assume h: "k < 3 \<and> (\<forall>j<k. api j = Inl (errs j) \<and> isRetryable (errs j)) \<and> api k = Inr text \<and>
    JSON_parse (js_or text ''[]'') = Some results \<and> (results = JNull \<longrightarrow> segments = [])"
  then have fails: "\<forall>j<k. ?fn j = Inl (errs j) \<and> isRetryable (errs j)"
    by simp
  from h have "?fn k = Inr ?rs"
    by (simp add: prompts_of_response_parsed)
  with h fails have "withRetry ?fn 3 2000 = \<lparr>outcome = Inr ?rs, calls = Suc k,
      delays = map (\<lambda>j. (if code (errs j) = Num 429 then 5000 else 2000) * 2 ^ j) [0..<k]\<rparr>"
    by (intro withRetry_delays) simp_all
  then have "outcome (generatePromptsForContinuousSegments JSON_parse segments api) = Inr ?rs"
    by (simp add: generatePromptsForContinuousSegments_def)
  moreover have "\<forall>n<length segments.
      visual_prompt (?rs ! n) = or_placeholder (optional_prop (element_at results n) ''visual_prompt'') \<and>
      image_prompt (?rs ! n) = or_placeholder (optional_prop (element_at results n) ''image_prompt'') \<and>
      json_truthy (Some (visual_prompt (?rs ! n))) \<and> json_truthy (Some (image_prompt (?rs ! n)))"
    by (simp add: prompt_entry_def or_placeholder_truthy)
  ultimately show "\<exists>rs. outcome (generatePromptsForContinuousSegments JSON_parse segments api) = Inr rs \<and>
         length rs = length segments \<and> map script_segment rs = segments \<and>
         (\<forall>n<length segments.
            visual_prompt (rs ! n) =
              or_placeholder (optional_prop (element_at results n) ''visual_prompt'') \<and>
            image_prompt (rs ! n) =
              or_placeholder (optional_prop (element_at results n) ''image_prompt'') \<and>
            json_truthy (Some (visual_prompt (rs ! n))) \<and>
            json_truthy (Some (image_prompt (rs ! n))))"
    using prompt_entries_length [of results segments] prompt_entries_segments [of results segments]
    by blast
next
  assume "\<not> json_truthy v"
  then show "or_placeholder v = JStr failure_placeholder"
    by (rule or_placeholder_missing)
next
  assume "length xs \<le> n"
  then show "optional_prop (element_at (JArr xs) n) name = None"
    by simp
next
  show "failure_placeholder \<noteq> []"
    by (rule failure_placeholder_truthy)
next
  let ?fn = "\<lambda>n. case api n of Inl e \<Rightarrow> Inl e
     | Inr text \<Rightarrow> prompts_of_response JSON_parse segments text"
  assume h: "k < 3 \<and> (\<forall>j<k. api j = Inl (errs j) \<and> isRetryable (errs j)) \<and> api k = Inr text \<and>
    (JSON_parse (js_or text ''[]'') = None \<or>
     JSON_parse (js_or text ''[]'') = Some JNull \<and> segments \<noteq> [])"
  then have fails: "\<forall>j<k. ?fn j = Inl (errs j) \<and> isRetryable (errs j)"
    by simp
  from h have "?fn k = Inl prompts_failed"
    by (simp add: prompts_of_response_unusable)
  with h fails have "outcome (withRetry ?fn 3 2000) = Inl (Thrown prompts_failed) \<and>
      calls (withRetry ?fn 3 2000) = Suc k"
    by (intro withRetry_stops [where errs = errs]) (simp_all add: prompts_failed_not_retryable)
  then show "outcome (generatePromptsForContinuousSegments JSON_parse segments api) =
      Inl (Thrown prompts_failed)"
    and "calls (generatePromptsForContinuousSegments JSON_parse segments api) = Suc k"
    by (simp_all add: generatePromptsForContinuousSegments_def)
qed

lemma truncated_unparsed: "JSON_parse_examples (js_or (Some truncated_reply) ''[]'') = None"
  by (simp add: JSON_parse_examples_def truncated_reply_def one_entry_reply_def js_or_def)

lemma one_entry_parsed:
  "JSON_parse_examples (js_or (Some one_entry_reply) ''[]'') =
     Some (JArr [JObj [(''visual_prompt'', JStr ''pan''), (''image_prompt'', JStr ''door'')]])"
  by (simp add: JSON_parse_examples_def one_entry_reply_def js_or_def)

text \<open>
  C5, as stated, fails. For two segments and a response text that is cut short, and
  for the response \<open>null\<close>, the function throws instead of returning two entries.
\<close>

theorem prompts_counterexample:
  "length two_segments = 2 \<and>
   outcome (generatePromptsForContinuousSegments JSON_parse_examples two_segments
      (replies_with truncated_reply)) = Inl (Thrown prompts_failed) \<and>
   calls (generatePromptsForContinuousSegments JSON_parse_examples two_segments
      (replies_with truncated_reply)) = 1 \<and>
   outcome (generatePromptsForContinuousSegments JSON_parse_examples two_segments
      (replies_with ''null'')) = Inl (Thrown prompts_failed)"
proof -
  have n: "JSON_parse_examples (js_or (Some ''null'') ''[]'') = Some JNull"
    by (simp add: JSON_parse_examples_def js_or_def)
  have 1: "prompts_of_response JSON_parse_examples two_segments (Some truncated_reply) = Inl prompts_failed"
    by (simp add: prompts_of_response_def truncated_unparsed)
  have 2: "prompts_of_response JSON_parse_examples two_segments (Some ''null'') = Inl prompts_failed"
    by (simp add: prompts_of_response_def n two_segments_def)
  show ?thesis
    by (simp add: generatePromptsForContinuousSegments_def withRetry_def replies_with_def 1 2
        withRetry_loop_fails_fast prompts_failed_not_retryable) (simp add: two_segments_def)
qed

text \<open>Two segments and a response with one entry: the second entry is the placeholder.\<close>

theorem prompts_per_segment_when_parsed_witness:
  "outcome (generatePromptsForContinuousSegments JSON_parse_examples two_segments
      (replies_with one_entry_reply)) =
     Inr [\<lparr>script_segment = ''He opens the door.'', visual_prompt = JStr ''pan'', image_prompt = JStr ''door''\<rparr>,
          \<lparr>script_segment = ''She looks up.'', visual_prompt = JStr failure_placeholder,
           image_prompt = JStr failure_placeholder\<rparr>] \<and>
   or_placeholder None = JStr failure_placeholder \<and>
   optional_prop (element_at (JArr [JNull]) 1) ''visual_prompt'' = None \<and>
   outcome (generatePromptsForContinuousSegments JSON_parse_examples two_segments
      (replies_with truncated_reply)) = Inl (Thrown prompts_failed) \<and>
   calls (generatePromptsForContinuousSegments JSON_parse_examples two_segments
      (replies_with truncated_reply)) = 1"
proof -
  note t = prompts_per_segment_when_parsed [where k = 0 and JSON_parse = JSON_parse_examples
      and segments = two_segments and errs = "\<lambda>j. unavailable"]
  let ?results = "JArr [JObj [(''visual_prompt'', JStr ''pan''), (''image_prompt'', JStr ''door'')]]"
  have a: "(0::nat) < 3 \<and> (\<forall>j<0. replies_with one_entry_reply j = Inl unavailable \<and> isRetryable unavailable) \<and>
      replies_with one_entry_reply 0 = Inr (Some one_entry_reply) \<and>
      JSON_parse_examples (js_or (Some one_entry_reply) ''[]'') = Some ?results \<and>
      (?results = JNull \<longrightarrow> two_segments = [])"
    by (simp add: replies_with_def one_entry_parsed)
  have b: "(0::nat) < 3 \<and> (\<forall>j<0. replies_with truncated_reply j = Inl unavailable \<and> isRetryable unavailable) \<and>
      replies_with truncated_reply 0 = Inr (Some truncated_reply) \<and>
      (JSON_parse_examples (js_or (Some truncated_reply) ''[]'') = None \<or>
       JSON_parse_examples (js_or (Some truncated_reply) ''[]'') = Some JNull \<and> two_segments \<noteq> [])"
    by (simp add: replies_with_def truncated_unparsed)
  from t [THEN conjunct1, rule_format, OF a]
  obtain rs where rs: "outcome (generatePromptsForContinuousSegments JSON_parse_examples two_segments
      (replies_with one_entry_reply)) = Inr rs" "length rs = length two_segments"
    "map script_segment rs = two_segments"
    "\<forall>n<length two_segments.
       visual_prompt (rs ! n) = or_placeholder (optional_prop (element_at ?results n) ''visual_prompt'') \<and>
       image_prompt (rs ! n) = or_placeholder (optional_prop (element_at ?results n) ''image_prompt'')"
    by blast
  from rs(2) obtain x y where xy: "rs = [x, y]"
    by (auto simp: two_segments_def length_Suc_conv)
  have x: "x = \<lparr>script_segment = ''He opens the door.'', visual_prompt = JStr ''pan'', image_prompt = JStr ''door''\<rparr>"
    using rs(3) rs(4) [rule_format, of 0] unfolding xy
    by (simp add: two_segments_def or_placeholder_def)
  have y: "y = \<lparr>script_segment = ''She looks up.'', visual_prompt = JStr failure_placeholder,
           image_prompt = JStr failure_placeholder\<rparr>"
    using rs(3) rs(4) [rule_format, of 1] unfolding xy
    by (simp add: two_segments_def or_placeholder_def)
  have 1: "outcome (generatePromptsForContinuousSegments JSON_parse_examples two_segments
      (replies_with one_entry_reply)) =
     Inr [\<lparr>script_segment = ''He opens the door.'', visual_prompt = JStr ''pan'', image_prompt = JStr ''door''\<rparr>,
          \<lparr>script_segment = ''She looks up.'', visual_prompt = JStr failure_placeholder,
           image_prompt = JStr failure_placeholder\<rparr>]"
    using rs(1) xy x y by simp
  have 2: "or_placeholder None = JStr failure_placeholder"
    using t [THEN conjunct2, THEN conjunct1, rule_format, of None] by simp
  have 3: "optional_prop (element_at (JArr [JNull]) 1) ''visual_prompt'' = None"
    using t [THEN conjunct2, THEN conjunct2, THEN conjunct1, rule_format, of "[JNull]" 1] by simp
  have 4: "outcome (generatePromptsForContinuousSegments JSON_parse_examples two_segments
      (replies_with truncated_reply)) = Inl (Thrown prompts_failed) \<and>
     calls (generatePromptsForContinuousSegments JSON_parse_examples two_segments
      (replies_with truncated_reply)) = Suc 0"
    using t [THEN conjunct2, THEN conjunct2, THEN conjunct2, THEN conjunct2, rule_format, OF b] .
  from 1 2 3 4 show ?thesis by simp
qed

section \<open>Properties of extractLastFrameFromVideo\<close>

text \<open>
  C7. The media handle is released (source removed, \<open>load()\<close> called) only inside
  \<open>capture\<close>. When the timer fires first, or the element reports an error, the promise
  is rejected and the source is still set; after a capture it is removed.
\<close>

theorem extractor_keeps_handle_on_timeout_and_error:
  "settled (extract_run ''blob:v'' [TimerFired]) = Rejected ExtractTimeout \<and>
   src (extract_run ''blob:v'' [TimerFired]) = Some ''blob:v'' \<and>
   load_calls (extract_run ''blob:v'' [TimerFired]) = 0 \<and>
   settled (extract_run ''blob:v'' [MediaError]) = Rejected VideoError \<and>
   src (extract_run ''blob:v'' [MediaError]) = Some ''blob:v'' \<and>
   load_calls (extract_run ''blob:v'' [MediaError]) = 0 \<and>
   settled (extract_run ''blob:v'' [LoadedMetadata 8, Seeked 4 (Drawn ''data:frame'')]) =
     Resolved ''data:frame'' \<and>
   src (extract_run ''blob:v'' [LoadedMetadata 8, Seeked 4 (Drawn ''data:frame'')]) = None \<and>
   load_calls (extract_run ''blob:v'' [LoadedMetadata 8, Seeked 4 (Drawn ''data:frame'')]) = 1"
  by (simp add: extract_run_def extract_start_def settle_def capture_def)

section \<open>Properties of the scene updates and handlers\<close>

lemma findIndex_lower: "- 1 \<le> findIndex P xs"
  by (induction xs) (simp_all add: Let_def)

lemma findIndex_upper: "findIndex P xs < int (length xs)"
  by (induction xs) (simp_all add: Let_def)

lemma findIndex_absent: "findIndex P xs = - 1 \<longleftrightarrow> list_all (\<lambda>x. \<not> P x) xs"
proof (induction xs)
  case Nil
  show ?case by simp
next
  case (Cons x xs)
  show ?case
    using Cons.IH findIndex_lower [of P xs] by (auto simp: Let_def)
qed

lemma findIndex_first:
  "k < length xs \<Longrightarrow> P (xs ! k) \<Longrightarrow> list_all (\<lambda>x. \<not> P x) (take k xs) \<Longrightarrow> findIndex P xs = int k"
proof (induction xs arbitrary: k)
  case Nil
  then show ?case by simp
next
  case (Cons x xs)
  show ?case
  proof (cases k)
    case 0
    with Cons.prems show ?thesis by simp
  next
    case (Suc j)
    with Cons.prems have "findIndex P xs = int j" and "\<not> P x"
      by (simp_all add: Cons.IH)
    with Suc show ?thesis by (simp add: Let_def)
  qed
qed

lemma findIndex_position:
  "findIndex P xs \<noteq> - 1 \<Longrightarrow>
     nat (findIndex P xs) < length xs \<and> P (xs ! nat (findIndex P xs)) \<and>
     list_all (\<lambda>x. \<not> P x) (take (nat (findIndex P xs)) xs)"
proof (induction xs)
  case Nil
  then show ?case by simp
next
  case (Cons x xs)
  show ?case
  proof (cases "P x")
    case True
    then show ?thesis by simp
  next
    case False
    with Cons.prems have ne: "findIndex P xs \<noteq> - 1"
      by (auto simp: Let_def)
    with findIndex_lower [of P xs] have ge: "0 \<le> findIndex P xs" by linarith
    then have "nat (findIndex P xs + 1) = Suc (nat (findIndex P xs))" by linarith
    with False ne Cons.IH [OF ne] show ?thesis by (simp add: Let_def)
  qed
qed

lemma findIndex_first_at:
  "first_at i xs k \<Longrightarrow> findIndex (\<lambda>s. scene_id s = i) xs = int k"
  unfolding first_at_def by (intro findIndex_first) simp_all

lemma first_at_findIndex:
  "findIndex (\<lambda>s. scene_id s = i) xs \<noteq> - 1 \<Longrightarrow>
     first_at i xs (nat (findIndex (\<lambda>s. scene_id s = i) xs))"
  unfolding first_at_def using findIndex_position [of "\<lambda>s. scene_id s = i" xs] by simp

lemma continuity_write_at:
  assumes "first_at i prev k"
  shows "continuity_write i lastFrame prev =
     (if Suc k = length prev then prev
      else if truthy (generatedImage (prev ! Suc k)) then prev
      else prev[Suc k := (prev ! Suc k)\<lparr>generatedImage := Some lastFrame, imageStatus := ImageCompleted\<rparr>])"
proof -
  have idx: "findIndex (\<lambda>s. scene_id s = i) prev = int k"
    by (rule findIndex_first_at [OF assms])
  have k: "k < length prev" using assms by (simp add: first_at_def)
  have n: "nat (int k + 1) = Suc k" by simp
  have "int k = int (length prev) - 1 \<longleftrightarrow> Suc k = length prev" using k by linarith
  then show ?thesis
    unfolding continuity_write_def idx Let_def n by simp
qed

lemma continuity_write_absent:
  assumes "list_all (\<lambda>s. scene_id s \<noteq> i) prev"
  shows "continuity_write i lastFrame prev = prev"
proof -
  have "findIndex (\<lambda>s. scene_id s = i) prev = - 1"
    using assms by (simp add: findIndex_absent)
  then show ?thesis by (simp add: continuity_write_def)
qed

lemma continuity_write_cases:
  "continuity_write i lastFrame prev = prev \<or>
   (\<exists>k. first_at i prev k \<and> Suc k < length prev \<and> \<not> truthy (generatedImage (prev ! Suc k)) \<and>
      continuity_write i lastFrame prev =
        prev[Suc k := (prev ! Suc k)\<lparr>generatedImage := Some lastFrame, imageStatus := ImageCompleted\<rparr>])"
proof (cases "findIndex (\<lambda>s. scene_id s = i) prev = - 1")
  case True
  then show ?thesis by (simp add: continuity_write_def)
next
  case False
  let ?k = "nat (findIndex (\<lambda>s. scene_id s = i) prev)"
  have f: "first_at i prev ?k" by (rule first_at_findIndex [OF False])
  then have k: "?k < length prev" by (simp add: first_at_def)
  show ?thesis
    using continuity_write_at [OF f, of lastFrame] k f by (auto simp: Suc_lessI)
qed

lemma update_scene_length [simp]: "length (update_scene i f prev) = length prev"
  by (simp add: update_scene_def)

lemma update_scene_nth:
  "k < length prev \<Longrightarrow>
     update_scene i f prev ! k = (if scene_id (prev ! k) = i then f (prev ! k) else prev ! k)"
  by (simp add: update_scene_def)

lemma continuity_write_length [simp]: "length (continuity_write i lastFrame prev) = length prev"
  using continuity_write_cases [of i lastFrame prev] by auto

lemma find_findIndex:
  "find P xs = None \<longleftrightarrow> findIndex P xs = - 1"
  by (auto simp: find_None_iff findIndex_absent list_all_iff)

text \<open>
  C10. The continuity write looks the completed shot up by its identifier in the list
  current when the write runs (\<open>prev\<close>, not the handler's snapshot): with the shot
  first found at position \<open>k\<close> there, the frame goes to position \<open>k + 1\<close> of that
  list, if that shot has no image; the list is returned unchanged if that shot has an
  image, if the completed shot is the last of the list, or if no shot of the list has
  the identifier.
\<close>

theorem continuity_write_resolves_at_write_time:
  "(first_at i prev k \<and> Suc k < length prev \<and> \<not> truthy (generatedImage (prev ! Suc k)) \<longrightarrow>
      continuity_write i lastFrame prev =
        prev[Suc k := (prev ! Suc k)\<lparr>generatedImage := Some lastFrame, imageStatus := ImageCompleted\<rparr>]) \<and>
   (first_at i prev k \<and> Suc k < length prev \<and> truthy (generatedImage (prev ! Suc k)) \<longrightarrow>
      continuity_write i lastFrame prev = prev) \<and>
   (first_at i prev k \<and> Suc k = length prev \<longrightarrow> continuity_write i lastFrame prev = prev) \<and>
   (list_all (\<lambda>s. scene_id s \<noteq> i) prev \<longrightarrow> continuity_write i lastFrame prev = prev)"
  by (auto simp: continuity_write_at continuity_write_absent)

lemma first_at_examples:
  "first_at ''a'' later_shots 1" "first_at ''b'' later_shots 2" "first_at ''a'' two_shots 0"
  "list_all (\<lambda>s. scene_id s \<noteq> ''z'') later_shots"
  by (simp_all add: first_at_def later_shots_def two_shots_def shot_a_def shot_b_def shot_c_def idle_scene_def)

text \<open>The shot \<open>a\<close> is first in the list of two shots and second in a later list of
  three: the write on the later list goes to its third shot.\<close>

theorem continuity_write_resolves_at_write_time_witness:
  "findIndex (\<lambda>s. scene_id s = ''a'') two_shots = 0 \<and>
   findIndex (\<lambda>s. scene_id s = ''a'') later_shots = 1 \<and>
   continuity_write ''a'' ''data:frame'' later_shots =
     [shot_c, shot_a, shot_b\<lparr>generatedImage := Some ''data:frame'', imageStatus := ImageCompleted\<rparr>] \<and>
   continuity_write ''a'' ''data:frame'' [shot_c, shot_a, shot_b\<lparr>generatedImage := Some ''data:upload''\<rparr>] =
     [shot_c, shot_a, shot_b\<lparr>generatedImage := Some ''data:upload''\<rparr>] \<and>
   continuity_write ''b'' ''data:frame'' later_shots = later_shots \<and>
   continuity_write ''z'' ''data:frame'' later_shots = later_shots"
proof -
  have up: "first_at ''a'' [shot_c, shot_a, shot_b\<lparr>generatedImage := Some ''data:upload''\<rparr>] 1"
    by (simp add: first_at_def shot_a_def shot_b_def shot_c_def idle_scene_def)
  have img: "\<not> truthy (generatedImage shot_b)" "truthy (Some ''data:upload'')"
    by (simp_all add: truthy_def shot_b_def idle_scene_def)
  have idx: "findIndex (\<lambda>s. scene_id s = ''a'') two_shots = 0"
      "findIndex (\<lambda>s. scene_id s = ''a'') later_shots = 1"
    using findIndex_first_at [OF first_at_examples(1)] findIndex_first_at [OF first_at_examples(3)]
    by simp_all
  note t = continuity_write_resolves_at_write_time
  from t [of "''a''" later_shots 1 "''data:frame''"] first_at_examples(1) img
  have 1: "continuity_write ''a'' ''data:frame'' later_shots =
     [shot_c, shot_a, shot_b\<lparr>generatedImage := Some ''data:frame'', imageStatus := ImageCompleted\<rparr>]"
    by (simp add: later_shots_def)
  from t [of "''a''" "[shot_c, shot_a, shot_b\<lparr>generatedImage := Some ''data:upload''\<rparr>]" 1 "''data:frame''"] up img
  have 2: "continuity_write ''a'' ''data:frame'' [shot_c, shot_a, shot_b\<lparr>generatedImage := Some ''data:upload''\<rparr>] =
     [shot_c, shot_a, shot_b\<lparr>generatedImage := Some ''data:upload''\<rparr>]"
    by simp
  from t [of "''b''" later_shots 2 "''data:frame''"] first_at_examples(2)
  have 3: "continuity_write ''b'' ''data:frame'' later_shots = later_shots"
    by (simp add: later_shots_def)
  from t [of "''z''" later_shots _ "''data:frame''"] first_at_examples(4)
  have 4: "continuity_write ''z'' ''data:frame'' later_shots = later_shots"
    by simp
  from idx 1 2 3 4 show ?thesis by simp
qed

lemma find_first_at:
  "first_at i xs k \<Longrightarrow> find (\<lambda>s. scene_id s = i) xs = Some (xs ! k)"
  unfolding first_at_def
proof (induction xs arbitrary: k)
  case Nil
  then show ?case by simp
next
  case (Cons x xs)
  then show ?case by (cases k) auto
qed


lemma continuity_step_extraction_failed: "continuity_step mode scenes i (Inl e) = []"
  by (simp add: continuity_step_def Let_def)



lemma video_updates_keep_image_state:
  "map imageStatus (apply_update (VideoStart i ov) cur) = map imageStatus cur"
  "map imageStatus (apply_update (VideoDone i url ar) cur) = map imageStatus cur"
  "map imageErrorMessage (apply_update (VideoStart i ov) cur) = map imageErrorMessage cur"
  "map imageErrorMessage (apply_update (VideoDone i url ar) cur) = map imageErrorMessage cur"
  by (simp_all add: update_scene_def)


lemma shots_simps:
  "first_at ''a'' [shot_a, uploaded_b] 0" "first_at ''a'' two_shots 0"
  "truthy (generatedImage uploaded_b)" "\<not> truthy (generatedImage shot_b)"
  "\<not> truthy (generatedImage shot_a)"
  by (simp_all add: first_at_def two_shots_def shot_a_def shot_b_def uploaded_b_def idle_scene_def truthy_def)


lemma run_updates_Nil [simp]: "run_updates [] cur = cur"
  by (simp add: run_updates_def)

lemma run_updates_Cons [simp]: "run_updates (u # us) cur = run_updates us (apply_update u cur)"
  by (simp add: run_updates_def)

lemma video_done_after_start:
  "run_updates [VideoStart i ov, VideoDone i url ar] cur =
     update_scene i (\<lambda>s. s\<lparr>status := Completed, errorMessage := None,
        visualPrompt := js_or ov (visualPrompt s), videoUrl := Some url, aspectRatio := Some ar\<rparr>) cur"
  by (simp add: update_scene_def)

text \<open>
  C8. When frame extraction fails or times out, the continuity step issues no update:
  the handler's updates are the start and the completion of the video alone, with no
  failure update. Applied to any list, they leave the shot's video state completed
  with no error message, leave every start-frame asset, image state and image error
  as they were (so the next shot's asset stays empty), and leave every other shot
  untouched.
\<close>

theorem extraction_failure_is_swallowed:
  "continuity_step mode scenes i (Inl e) = [] \<and>
   (first_at i scenes k \<longrightarrow>
      handleGenerateVideo mode ar scenes i ov (Inr url) (Inl e) = [VideoStart i ov, VideoDone i url ar]) \<and>
   length (run_updates [VideoStart i ov, VideoDone i url ar] cur) = length cur \<and>
   map generatedImage (run_updates [VideoStart i ov, VideoDone i url ar] cur) = map generatedImage cur \<and>
   map imageStatus (run_updates [VideoStart i ov, VideoDone i url ar] cur) = map imageStatus cur \<and>
   map imageErrorMessage (run_updates [VideoStart i ov, VideoDone i url ar] cur) =
     map imageErrorMessage cur \<and>
   (j < length cur \<and> scene_id (cur ! j) = i \<longrightarrow>
      status (run_updates [VideoStart i ov, VideoDone i url ar] cur ! j) = Completed \<and>
      errorMessage (run_updates [VideoStart i ov, VideoDone i url ar] cur ! j) = None) \<and>
   (j < length cur \<and> scene_id (cur ! j) \<noteq> i \<longrightarrow>
      run_updates [VideoStart i ov, VideoDone i url ar] cur ! j = cur ! j)"
proof (intro conjI impI)
  show "continuity_step mode scenes i (Inl e) = []"
    by (rule continuity_step_extraction_failed)
  show "handleGenerateVideo mode ar scenes i ov (Inr url) (Inl e) = [VideoStart i ov, VideoDone i url ar]"
    if "first_at i scenes k"
    by (simp add: handleGenerateVideo_def find_first_at [OF that] continuity_step_extraction_failed)
qed (simp_all only: video_done_after_start, simp_all add: update_scene_def)

text \<open>The first of two shots completes in continuous mode and the extraction times out.\<close>

theorem extraction_failure_is_swallowed_witness:
  "handleGenerateVideo Single Ratio_16_9 two_shots ''a'' None (Inr ''blob:v'') (Inl extraction_timeout) =
     [VideoStart ''a'' None, VideoDone ''a'' ''blob:v'' Ratio_16_9] \<and>
   status (run_updates [VideoStart ''a'' None, VideoDone ''a'' ''blob:v'' Ratio_16_9] two_shots ! 0) = Completed \<and>
   errorMessage (run_updates [VideoStart ''a'' None, VideoDone ''a'' ''blob:v'' Ratio_16_9] two_shots ! 0) = None \<and>
   run_updates [VideoStart ''a'' None, VideoDone ''a'' ''blob:v'' Ratio_16_9] two_shots ! 1 = shot_b \<and>
   generatedImage shot_b = None"
proof -
  note t = extraction_failure_is_swallowed [of Single two_shots "''a''" extraction_timeout _
      Ratio_16_9 None "''blob:v''" two_shots]
  have a: "0 < length two_shots \<and> scene_id (two_shots ! 0) = ''a''"
    and b: "1 < length two_shots \<and> scene_id (two_shots ! 1) \<noteq> ''a''"
    and c: "two_shots ! 1 = shot_b" "generatedImage shot_b = None"
    by (simp_all add: two_shots_def shot_a_def shot_b_def idle_scene_def)
  have 1: "handleGenerateVideo Single Ratio_16_9 two_shots ''a'' None (Inr ''blob:v'') (Inl extraction_timeout) =
     [VideoStart ''a'' None, VideoDone ''a'' ''blob:v'' Ratio_16_9]"
    using t [THEN conjunct2, THEN conjunct1, rule_format, OF shots_simps(2)] .
  have 2: "status (run_updates [VideoStart ''a'' None, VideoDone ''a'' ''blob:v'' Ratio_16_9] two_shots ! 0) = Completed \<and>
   errorMessage (run_updates [VideoStart ''a'' None, VideoDone ''a'' ''blob:v'' Ratio_16_9] two_shots ! 0) = None"
    using t [of _ 0, THEN conjunct2, THEN conjunct2, THEN conjunct2, THEN conjunct2, THEN conjunct2,
        THEN conjunct2, THEN conjunct1, rule_format, OF a] .
  have 3: "run_updates [VideoStart ''a'' None, VideoDone ''a'' ''blob:v'' Ratio_16_9] two_shots ! 1 = two_shots ! 1"
    using t [of _ 1, THEN conjunct2, THEN conjunct2, THEN conjunct2, THEN conjunct2, THEN conjunct2,
        THEN conjunct2, THEN conjunct2, rule_format, OF b] .
  from 1 2 3 c show ?thesis by (simp only: simp_thms)
qed

lemma first_frame_updates_keep_images:
  "map generatedImage (apply_update (FirstFrameStart i) cur) = map generatedImage cur"
  "map generatedImage (apply_update (FirstFrameFailed i msg) cur) = map generatedImage cur"
  "map generatedImage (apply_update (UpdatePrompt i vp ip) cur) = map generatedImage cur"
  by (simp_all add: update_scene_def)

lemma failed_first_frame_keeps_images:
  "map generatedImage (run_updates (handleGenerateFirstFrame scenes i ov promptResult (Inl e)) cur) =
     map generatedImage cur"
  by (simp add: handleGenerateFirstFrame_def first_frame_result_def first_frame_updates_keep_images
      split: option.split sum.split del: apply_update.simps)

text \<open>
  C9. When first-frame image generation fails with error \<open>e\<close>, the handler's last update
  is the failure update carrying \<open>e\<close>'s message (after the start update, and after
  the prompt update when the prompt had to be generated first); the whole failing run
  leaves every start-frame asset as it was. The failure update sets the shot's image
  state to error and its image error to the message, and leaves every other field of
  the shot, and every other shot, unchanged.
\<close>

theorem first_frame_failure_effect:
  "(first_at i scenes k \<and> truthy (js_or_opt ov (imagePrompt (scenes ! k))) \<longrightarrow>
      handleGenerateFirstFrame scenes i ov promptResult (Inl e) =
        [FirstFrameStart i, FirstFrameFailed i (message e)]) \<and>
   (first_at i scenes k \<and> \<not> truthy (js_or_opt ov (imagePrompt (scenes ! k))) \<longrightarrow>
      handleGenerateFirstFrame scenes i ov (Inr p) (Inl e) =
        [FirstFrameStart i, UpdatePrompt i (visualPrompt (scenes ! k)) (Some p),
         FirstFrameFailed i (message e)]) \<and>
   map generatedImage (run_updates (handleGenerateFirstFrame scenes i ov promptResult (Inl e)) cur) =
     map generatedImage cur \<and>
   length (apply_update (FirstFrameFailed i msg) prev) = length prev \<and>
   (j < length prev \<and> scene_id (prev ! j) = i \<longrightarrow>
      (let s = prev ! j; s' = apply_update (FirstFrameFailed i msg) prev ! j in
       imageStatus s' = ImageError \<and> imageErrorMessage s' = msg \<and>
       generatedImage s' = generatedImage s \<and> scene_id s' = scene_id s \<and>
       scriptSegment s' = scriptSegment s \<and> visualPrompt s' = visualPrompt s \<and>
       imagePrompt s' = imagePrompt s \<and> videoUrl s' = videoUrl s \<and>
       styleReferenceImage s' = styleReferenceImage s \<and> status s' = status s \<and>
       errorMessage s' = errorMessage s \<and> aspectRatio s' = aspectRatio s)) \<and>
   (j < length prev \<and> scene_id (prev ! j) \<noteq> i \<longrightarrow>
      apply_update (FirstFrameFailed i msg) prev ! j = prev ! j)"
proof (intro conjI impI)
  show "handleGenerateFirstFrame scenes i ov promptResult (Inl e) =
      [FirstFrameStart i, FirstFrameFailed i (message e)]"
    if "first_at i scenes k \<and> truthy (js_or_opt ov (imagePrompt (scenes ! k)))"
    using that find_first_at [of i scenes k]
    by (simp add: handleGenerateFirstFrame_def first_frame_result_def)
  show "handleGenerateFirstFrame scenes i ov (Inr p) (Inl e) =
      [FirstFrameStart i, UpdatePrompt i (visualPrompt (scenes ! k)) (Some p),
       FirstFrameFailed i (message e)]"
    if "first_at i scenes k \<and> \<not> truthy (js_or_opt ov (imagePrompt (scenes ! k)))"
    using that find_first_at [of i scenes k]
    by (simp add: handleGenerateFirstFrame_def first_frame_result_def)
  show "map generatedImage (run_updates (handleGenerateFirstFrame scenes i ov promptResult (Inl e)) cur) =
      map generatedImage cur"
    by (rule failed_first_frame_keeps_images)
qed (simp_all add: update_scene_def Let_def)

text \<open>A shot that already has an image keeps it when regeneration fails; a shot with no
  prompt has the generated prompt stored before the image request fails.\<close>

theorem first_frame_failure_effect_witness:
  "handleGenerateFirstFrame [drawn_a, shot_b] ''a'' None (Inr ''unused'') (Inl no_image_returned) =
     [FirstFrameStart ''a'', FirstFrameFailed ''a'' (Some ''no image data'')] \<and>
   handleGenerateFirstFrame [shot_c, shot_b] ''c'' None (Inr ''a street'') (Inl no_image_returned) =
     [FirstFrameStart ''c'', UpdatePrompt ''c'' ''they leave'' (Some ''a street''),
      FirstFrameFailed ''c'' (Some ''no image data'')] \<and>
   imageStatus (apply_update (FirstFrameFailed ''a'' (Some ''no image data'')) [drawn_a, shot_b] ! 0) = ImageError \<and>
   imageErrorMessage (apply_update (FirstFrameFailed ''a'' (Some ''no image data'')) [drawn_a, shot_b] ! 0) =
     Some ''no image data'' \<and>
   generatedImage (apply_update (FirstFrameFailed ''a'' (Some ''no image data'')) [drawn_a, shot_b] ! 0) =
     Some ''data:old'' \<and>
   apply_update (FirstFrameFailed ''a'' (Some ''no image data'')) [drawn_a, shot_b] ! 1 = shot_b"
proof -
  note t = first_frame_failure_effect
  have a: "first_at ''a'' [drawn_a, shot_b] 0 \<and> truthy (js_or_opt None (imagePrompt ([drawn_a, shot_b] ! 0)))"
    and c: "first_at ''c'' [shot_c, shot_b] 0 \<and> \<not> truthy (js_or_opt None (imagePrompt ([shot_c, shot_b] ! 0)))"
    and j0: "0 < length [drawn_a, shot_b] \<and> scene_id ([drawn_a, shot_b] ! 0) = ''a''"
    and j1: "1 < length [drawn_a, shot_b] \<and> scene_id ([drawn_a, shot_b] ! 1) \<noteq> ''a''"
    and v: "visualPrompt ([shot_c, shot_b] ! 0) = ''they leave''" "message no_image_returned = Some ''no image data''"
      "generatedImage ([drawn_a, shot_b] ! 0) = Some ''data:old''" "[drawn_a, shot_b] ! 1 = shot_b"
    by (simp_all add: first_at_def truthy_def js_or_opt_def drawn_a_def shot_a_def shot_b_def shot_c_def
        idle_scene_def no_image_returned_def)
  have 1: "handleGenerateFirstFrame [drawn_a, shot_b] ''a'' None (Inr ''unused'') (Inl no_image_returned) =
     [FirstFrameStart ''a'', FirstFrameFailed ''a'' (message no_image_returned)]"
    using t [THEN conjunct1, rule_format, OF a] .
  have 2: "handleGenerateFirstFrame [shot_c, shot_b] ''c'' None (Inr ''a street'') (Inl no_image_returned) =
     [FirstFrameStart ''c'', UpdatePrompt ''c'' (visualPrompt ([shot_c, shot_b] ! 0)) (Some ''a street''),
      FirstFrameFailed ''c'' (message no_image_returned)]"
    using t [THEN conjunct2, THEN conjunct1, rule_format, OF c] .
  have 3: "let s = [drawn_a, shot_b] ! 0;
      s' = apply_update (FirstFrameFailed ''a'' (Some ''no image data'')) [drawn_a, shot_b] ! 0 in
       imageStatus s' = ImageError \<and> imageErrorMessage s' = Some ''no image data'' \<and>
       generatedImage s' = generatedImage s \<and> scene_id s' = scene_id s \<and>
       scriptSegment s' = scriptSegment s \<and> visualPrompt s' = visualPrompt s \<and>
       imagePrompt s' = imagePrompt s \<and> videoUrl s' = videoUrl s \<and>
       styleReferenceImage s' = styleReferenceImage s \<and> status s' = status s \<and>
       errorMessage s' = errorMessage s \<and> aspectRatio s' = aspectRatio s"
    using t [THEN conjunct2, THEN conjunct2, THEN conjunct2, THEN conjunct2, THEN conjunct1,
        rule_format, OF j0] .
  have 4: "apply_update (FirstFrameFailed ''a'' (Some ''no image data'')) [drawn_a, shot_b] ! 1 =
      [drawn_a, shot_b] ! 1"
    using t [THEN conjunct2, THEN conjunct2, THEN conjunct2, THEN conjunct2, THEN conjunct2,
        rule_format, OF j1] .
  from 1 2 3 4 v show ?thesis by (simp only: Let_def simp_thms)
qed




















end
